theory Spec2Isabelle
  imports Main "HOL-Library.Sublist"
begin

section \<open>ECMAScript strings\<close>

text \<open>
  An ECMAScript string is a finite sequence of UTF-16 code units, and \<open>length\<close>,
  \<open>includes\<close>, \<open>startsWith\<close>, \<open>split\<close>, \<open>trim\<close> and the regular expressions of the
  planner (none has the \<open>u\<close> flag) all work on code units. A code unit is modelled
  by its number. Literals of the source are written \<open>str ''...''\<close>.
\<close>

type_synonym jstring = "nat list"

definition str :: "string \<Rightarrow> jstring" where
  "str s = map of_char s"

text \<open>
  \<open>String.prototype.toLowerCase\<close> follows the case mappings of the Unicode Character
  Database of the engine, which are no part of the planner. It is a parameter, written
  \<open>toLowerCase\<close> as in the source, of every function that calls it, and every theorem
  holds whatever function it is. Where a theorem runs the planner on a text, it asks of
  the parameter only what the built-in does to a string of ASCII code units, which is the
  same in every version of the mappings: the capitals \<open>A\<close> to \<open>Z\<close> move up by 32 and
  every other code unit stays (\<open>lowersASCII\<close>). \<open>asciiLowerCase\<close> is one such function.
\<close>

definition asciiLower :: "nat \<Rightarrow> nat" where
  "asciiLower c = (if 65 \<le> c \<and> c \<le> 90 then c + 32 else c)"

definition lowersASCII :: "(jstring \<Rightarrow> jstring) \<Rightarrow> bool" where
  "lowersASCII toLowerCase \<longleftrightarrow>
     (\<forall>s. (\<forall>c\<in>set s. c < 128) \<longrightarrow> toLowerCase s = map asciiLower s)"

definition asciiLowerCase :: "jstring \<Rightarrow> jstring" where
  "asciiLowerCase s = map asciiLower s"

text \<open>\<open>s.startsWith(p)\<close> and \<open>s.includes(t)\<close>.\<close>

fun startsWith :: "jstring \<Rightarrow> jstring \<Rightarrow> bool" where
  "startsWith s [] = True"
| "startsWith [] (p # ps) = False"
| "startsWith (c # cs) (p # ps) = (c = p \<and> startsWith cs ps)"

fun includesStr :: "jstring \<Rightarrow> jstring \<Rightarrow> bool" where
  "includesStr [] t = (t = [])"
| "includesStr (c # cs) t = (startsWith (c # cs) t \<or> includesStr cs t)"

text \<open>
  The class \<open>\s\<close> of a regular expression, which is also what \<open>trim\<close> removes:
  the white space and line terminator code points of ECMAScript (TAB, LF, VT, FF, CR,
  SP, NBSP, U+1680, U+2000 to U+200A, LS, PS, U+202F, U+205F, U+3000, U+FEFF).
\<close>

definition isWhiteSpace :: "nat \<Rightarrow> bool" where
  "isWhiteSpace c \<longleftrightarrow>
     (9 \<le> c \<and> c \<le> 13) \<or> c = 32 \<or> c = 160 \<or> c = 5760 \<or> (8192 \<le> c \<and> c \<le> 8202) \<or>
     c = 8232 \<or> c = 8233 \<or> c = 8239 \<or> c = 8287 \<or> c = 12288 \<or> c = 65279"

section \<open>The relevance filter and the intent classifier (planner)\<close>

subsection \<open>extractKeywords\<close>

text \<open>The class \<open>[\s,.-]\<close>: white space, comma (44), period (46), hyphen (45).\<close>

definition isSeparator :: "nat \<Rightarrow> bool" where
  "isSeparator c \<longleftrightarrow> isWhiteSpace c \<or> c = 44 \<or> c = 46 \<or> c = 45"

definition beginsWithSeparator :: "jstring \<Rightarrow> bool" where
  "beginsWithSeparator s = (case s of [] \<Rightarrow> False | c # cs \<Rightarrow> isSeparator c)"

text \<open>
  \<open>s.split(/[\s,.-]+/)\<close>: the input is cut at every maximal run of separators. A run
  at the very start or end leaves an empty first or last token, and the empty input
  gives one empty token, as \<open>split\<close> does for a pattern that cannot match the empty
  string. The second argument is the token being collected.
\<close>

function splitRuns :: "jstring \<Rightarrow> jstring \<Rightarrow> jstring list" where
  "splitRuns cur [] = [cur]"
| "splitRuns cur (c # cs) =
     (if isSeparator c then cur # splitRuns [] (dropWhile isSeparator cs)
      else splitRuns (cur @ [c]) cs)"
  by pat_completeness auto
termination
  by (relation "measure (\<lambda>(cur, s). length s)")
     (auto simp: less_Suc_eq_le length_dropWhile_le)

definition splitSeparators :: "jstring \<Rightarrow> jstring list" where
  "splitSeparators s = splitRuns [] s"

definition commonWords :: "jstring list" where
  "commonWords = map str
    [''the'', ''a'', ''an'', ''and'', ''or'', ''but'', ''in'', ''on'', ''at'', ''to'', ''for'',
     ''of'', ''with'', ''by'',
     ''is'', ''are'', ''was'', ''were'', ''be'', ''been'', ''have'', ''has'', ''had'', ''do'',
     ''does'', ''did'',
     ''will'', ''would'', ''could'', ''should'', ''may'', ''might'', ''can'', ''must'', ''shall'',
     ''this'', ''that'', ''these'', ''those'', ''i'', ''you'', ''he'', ''she'', ''it'', ''we'',
     ''they'',
     ''me'', ''him'', ''her'', ''us'', ''them'', ''my'', ''your'', ''his'', ''her'', ''its'',
     ''our'', ''their'']"

definition keepWord :: "jstring \<Rightarrow> bool" where
  "keepWord word \<longleftrightarrow> length word > 2 \<and> word \<notin> set commonWords"

definition extractKeywords :: "(jstring \<Rightarrow> jstring) \<Rightarrow> jstring \<Rightarrow> jstring list" where
  "extractKeywords toLowerCase input =
     take 10 (filter keepWord (splitSeparators (toLowerCase input)))"

subsection \<open>filterRelevantFiles\<close>

text \<open>
  The loop over \<open>allFiles\<close>; the last argument is the array \<open>relevantFiles\<close> that
  the loop pushes to.
\<close>

fun scanAllFiles :: "(jstring \<Rightarrow> jstring) \<Rightarrow> jstring list \<Rightarrow> jstring list \<Rightarrow> jstring list \<Rightarrow> jstring list \<Rightarrow> jstring list" where
  "scanAllFiles toLowerCase keywords referencedFiles [] relevantFiles = relevantFiles"
| "scanAllFiles toLowerCase keywords referencedFiles (file # rest) relevantFiles =
     (if file \<in> set referencedFiles
      then scanAllFiles toLowerCase keywords referencedFiles rest relevantFiles
      else
        let fileName = toLowerCase file;
            hasKeyword = list_ex (\<lambda>keyword. includesStr fileName (toLowerCase keyword)) keywords
        in if hasKeyword
           then scanAllFiles toLowerCase keywords referencedFiles rest (relevantFiles @ [file])
           else scanAllFiles toLowerCase keywords referencedFiles rest relevantFiles)"

definition filterRelevantFiles :: "(jstring \<Rightarrow> jstring) \<Rightarrow> jstring \<Rightarrow> jstring list \<Rightarrow> jstring list \<Rightarrow> jstring list" where
  "filterRelevantFiles toLowerCase userInput referencedFiles allFiles =
     (let keywords = extractKeywords toLowerCase userInput;
          relevantFiles = [] @ referencedFiles
      in take 20 (scanAllFiles toLowerCase keywords referencedFiles allFiles relevantFiles))"

subsection \<open>extractIntent\<close>

definition extractIntent :: "(jstring \<Rightarrow> jstring) \<Rightarrow> jstring \<Rightarrow> jstring" where
  "extractIntent toLowerCase input =
     (let lowerInput = toLowerCase input in
      if includesStr lowerInput (str ''add'') \<or> includesStr lowerInput (str ''create'')
           \<or> includesStr lowerInput (str ''new'')
      then str ''Create/Add new functionality''
      else if includesStr lowerInput (str ''modify'') \<or> includesStr lowerInput (str ''change'')
           \<or> includesStr lowerInput (str ''update'')
      then str ''Modify existing functionality''
      else if includesStr lowerInput (str ''fix'') \<or> includesStr lowerInput (str ''bug'')
           \<or> includesStr lowerInput (str ''error'')
      then str ''Fix bugs or errors''
      else if includesStr lowerInput (str ''remove'') \<or> includesStr lowerInput (str ''delete'')
           \<or> includesStr lowerInput (str ''clean'')
      then str ''Remove/Delete functionality''
      else if includesStr lowerInput (str ''refactor'') \<or> includesStr lowerInput (str ''improve'')
           \<or> includesStr lowerInput (str ''optimize'')
      then str ''Refactor/Improve code''
      else if includesStr lowerInput (str ''test'') \<or> includesStr lowerInput (str ''testing'')
      then str ''Add or modify tests''
      else if includesStr lowerInput (str ''document'') \<or> includesStr lowerInput (str ''comment'')
           \<or> includesStr lowerInput (str ''readme'')
      then str ''Add or update documentation''
      else str ''General code changes'')"

text \<open>
  The classifier as the specification words it: an ordered list of trigger-word groups,
  each with its label, and the label of the first group with a hit.
\<close>

definition intentGroups :: "(jstring list \<times> jstring) list" where
  "intentGroups =
    [(map str [''add'', ''create'', ''new''], str ''Create/Add new functionality''),
     (map str [''modify'', ''change'', ''update''], str ''Modify existing functionality''),
     (map str [''fix'', ''bug'', ''error''], str ''Fix bugs or errors''),
     (map str [''remove'', ''delete'', ''clean''], str ''Remove/Delete functionality''),
     (map str [''refactor'', ''improve'', ''optimize''], str ''Refactor/Improve code''),
     (map str [''test'', ''testing''], str ''Add or modify tests''),
     (map str [''document'', ''comment'', ''readme''], str ''Add or update documentation'')]"

fun firstGroupLabel :: "(jstring list \<times> jstring) list \<Rightarrow> jstring \<Rightarrow> jstring" where
  "firstGroupLabel [] text = str ''General code changes''"
| "firstGroupLabel ((triggers, label) # groups) text =
     (if list_ex (includesStr text) triggers then label else firstGroupLabel groups text)"

section \<open>Values, exceptions and the platform\<close>

text \<open>
  A value that came out of \<open>JSON.parse\<close> or \<open>response.json()\<close>. A number is kept
  as the decimal literal it was read from: sign, digits and decimal exponent, standing
  for \<open>digits * 10 ^ exponent\<close>. An object is the list of its members.
\<close>

datatype jnumber = JNum (negative: bool) (digits: nat) (exponent: int)

datatype json =
    JNull
  | JBool bool
  | JNumber jnumber
  | JString jstring
  | JArray "json list"
  | JObject "(jstring \<times> json) list"

text \<open>
  The number a literal denotes is its value rounded to a double. It is \<open>+0\<close> or \<open>-0\<close>
  exactly when the digits are 0 or the value is at most \<open>2 ^ -1075\<close>, half of the least
  positive double (a tie goes to the even neighbour, 0).
\<close>

definition isZeroNumber :: "jnumber \<Rightarrow> bool" where
  "isZeroNumber n \<longleftrightarrow>
     digits n = 0 \<or> (exponent n < 0 \<and> digits n * 2 ^ 1075 \<le> 10 ^ nat (- exponent n))"

text \<open>
  \<open>!v\<close> for a value or \<open>undefined\<close> (\<open>None\<close>): \<open>undefined\<close>, \<open>null\<close>, \<open>false\<close>,
  a zero and the empty string are falsy (a JSON value is never NaN).
\<close>

fun falsy :: "json option \<Rightarrow> bool" where
  "falsy None = True"
| "falsy (Some JNull) = True"
| "falsy (Some (JBool b)) = (\<not> b)"
| "falsy (Some (JNumber n)) = isZeroNumber n"
| "falsy (Some (JString s)) = (s = [])"
| "falsy (Some (JArray xs)) = False"
| "falsy (Some (JObject ms)) = False"

text \<open>
  Reading a property whose name is neither an array index nor \<open>length\<close>, and that
  no prototype defines (\<open>candidates\<close>, \<open>content\<close>, \<open>parts\<close>, \<open>text\<close>, \<open>summary\<close>, \<open>steps\<close>),
  of a value that is not \<open>null\<close>: only an object can have it. \<open>JSON.parse\<close> keeps
  the last of several members with one name, and the member lists built here never
  repeat a name.
\<close>

fun getNamed :: "json \<Rightarrow> jstring \<Rightarrow> json option" where
  "getNamed (JObject ms) name = map_of ms name"
| "getNamed v name = None"

text \<open>Reading the property \<open>0\<close> of a value that is not \<open>null\<close>.\<close>

fun getFirst :: "json \<Rightarrow> json option" where
  "getFirst (JArray []) = None"
| "getFirst (JArray (x # xs)) = Some x"
| "getFirst (JString []) = None"
| "getFirst (JString (c # cs)) = Some (JString [c])"
| "getFirst (JObject ms) = map_of ms (str ''0'')"
| "getFirst v = None"

text \<open>
  A link \<open>?.\<close> of an optional chain: when the value before it is \<open>undefined\<close> or
  \<open>null\<close> the rest of the chain is \<open>undefined\<close>.
\<close>

fun optionalChain :: "json option \<Rightarrow> (json \<Rightarrow> json option) \<Rightarrow> json option" where
  "optionalChain None f = None"
| "optionalChain (Some JNull) f = None"
| "optionalChain (Some v) f = f v"

text \<open>
  What a \<open>throw\<close> carries: an \<open>Error\<close> object (of any subclass) with its message, or
  some other value, kept as its string form \<open>String(value)\<close>.
\<close>

datatype thrown = ErrorObject jstring | OtherValue jstring

text \<open>
  The \<open>Response\<close> of \<open>fetch\<close> as the planner reads it: \<open>ok\<close>, \<open>status\<close>, and the
  outcomes of \<open>text()\<close> and \<open>json()\<close>.
\<close>

record response =
  ok :: bool
  status :: nat
  responseText :: "thrown + jstring"
  responseJson :: "thrown + json"

text \<open>
  The platform the planner runs on: the environment variable, \<open>fetch\<close>, the calls of
  \<open>fs\<close> and \<open>path\<close> it uses, and the context provider's \<open>getFileTreeString\<close>, each
  over a world \<open>'w\<close> that the platform may change in any way. Every theorem below
  holds for every platform.
\<close>

record 'w platform =
  env_GEMINI_API_KEY :: "'w \<Rightarrow> jstring option"
  fetch :: "jstring \<Rightarrow> jstring \<Rightarrow> 'w \<Rightarrow> (thrown + response) \<times> 'w"
  existsSync :: "jstring \<Rightarrow> 'w \<Rightarrow> bool"
  readFileSync :: "jstring \<Rightarrow> 'w \<Rightarrow> thrown + jstring"
  writeFileSync :: "jstring \<Rightarrow> jstring \<Rightarrow> 'w \<Rightarrow> thrown option \<times> 'w"
  mkdirSync :: "jstring \<Rightarrow> 'w \<Rightarrow> thrown option \<times> 'w"
  dirname :: "jstring \<Rightarrow> jstring"
  getFileTreeString :: "jstring \<Rightarrow> 'w \<Rightarrow> thrown + jstring"

text \<open>
  The state of a run: the world, and the trace of the platform calls made so far, which
  the model keeps so that theorems can say which calls were made. Console output is not
  modelled.
\<close>

datatype event =
    Fetch jstring jstring
  | Exists jstring
  | ReadFile jstring
  | WriteFile jstring jstring
  | Mkdir jstring
  | FileTree jstring

record 'w state =
  world :: 'w
  trace :: "event list"

definition callFetch :: "'w platform \<Rightarrow> jstring \<Rightarrow> jstring \<Rightarrow> 'w state \<Rightarrow> (thrown + response) \<times> 'w state" where
  "callFetch p url body st =
     (let (r, w) = fetch p url body (world st)
      in (r, \<lparr>world = w, trace = trace st @ [Fetch url body]\<rparr>))"

definition callExistsSync :: "'w platform \<Rightarrow> jstring \<Rightarrow> 'w state \<Rightarrow> bool \<times> 'w state" where
  "callExistsSync p path st =
     (existsSync p path (world st), st\<lparr>trace := trace st @ [Exists path]\<rparr>)"

definition callReadFileSync :: "'w platform \<Rightarrow> jstring \<Rightarrow> 'w state \<Rightarrow> (thrown + jstring) \<times> 'w state" where
  "callReadFileSync p path st =
     (readFileSync p path (world st), st\<lparr>trace := trace st @ [ReadFile path]\<rparr>)"

definition callWriteFileSync :: "'w platform \<Rightarrow> jstring \<Rightarrow> jstring \<Rightarrow> 'w state \<Rightarrow> thrown option \<times> 'w state" where
  "callWriteFileSync p path content st =
     (let (r, w) = writeFileSync p path content (world st)
      in (r, \<lparr>world = w, trace = trace st @ [WriteFile path content]\<rparr>))"

definition callMkdirSync :: "'w platform \<Rightarrow> jstring \<Rightarrow> 'w state \<Rightarrow> thrown option \<times> 'w state" where
  "callMkdirSync p path st =
     (let (r, w) = mkdirSync p path (world st)
      in (r, \<lparr>world = w, trace = trace st @ [Mkdir path]\<rparr>))"

definition callGetFileTreeString :: "'w platform \<Rightarrow> jstring \<Rightarrow> 'w state \<Rightarrow> (thrown + jstring) \<times> 'w state" where
  "callGetFileTreeString p rootDir st =
     (getFileTreeString p rootDir (world st), st\<lparr>trace := trace st @ [FileTree rootDir]\<rparr>)"

section \<open>Built-ins the planner calls\<close>

text \<open>The decimal digits of a natural number, as the conversion of an integral number
  below \<open>10 ^ 21\<close> to a string writes them.\<close>

function showNat :: "nat \<Rightarrow> jstring" where
  "showNat n = (if n < 10 then [48 + n] else showNat (n div 10) @ [48 + n mod 10])"
  by pat_completeness auto
termination
  by (relation "measure id") auto

declare showNat.simps [simp del]

text \<open>
  \<open>JSON.stringify\<close> of a string: the string between double quotes, with the two-character
  escapes for backspace, tab, line feed, form feed, carriage return, the double quote and
  the backslash, and \<open>\uXXXX\<close> with lowercase digits for the other code units below
  U+0020 and for a surrogate that is not part of a pair.
\<close>

definition hexDigit :: "nat \<Rightarrow> nat" where
  "hexDigit d = (if d < 10 then 48 + d else 87 + d)"

definition unicodeEscape :: "nat \<Rightarrow> jstring" where
  "unicodeEscape c =
     [92, 117, hexDigit (c div 4096 mod 16), hexDigit (c div 256 mod 16),
      hexDigit (c div 16 mod 16), hexDigit (c mod 16)]"

definition isLeadSurrogate :: "nat \<Rightarrow> bool" where
  "isLeadSurrogate c \<longleftrightarrow> 55296 \<le> c \<and> c \<le> 56319"

definition isTrailSurrogate :: "nat \<Rightarrow> bool" where
  "isTrailSurrogate c \<longleftrightarrow> 56320 \<le> c \<and> c \<le> 57343"

definition quoteUnit :: "nat \<Rightarrow> jstring" where
  "quoteUnit c =
     (if c = 8 then [92, 98]
      else if c = 9 then [92, 116]
      else if c = 10 then [92, 110]
      else if c = 12 then [92, 102]
      else if c = 13 then [92, 114]
      else if c = 34 then [92, 34]
      else if c = 92 then [92, 92]
      else if c < 32 \<or> isLeadSurrogate c \<or> isTrailSurrogate c then unicodeEscape c
      else [c])"

fun quoteUnits :: "jstring \<Rightarrow> jstring" where
  "quoteUnits [] = []"
| "quoteUnits [c] = quoteUnit c"
| "quoteUnits (c # d # cs) =
     (if isLeadSurrogate c \<and> isTrailSurrogate d then c # d # quoteUnits cs
      else quoteUnit c @ quoteUnits (d # cs))"

definition quoteJSONString :: "jstring \<Rightarrow> jstring" where
  "quoteJSONString s = [34] @ quoteUnits s @ [34]"

text \<open>\<open>s.trim()\<close>.\<close>

definition trim :: "jstring \<Rightarrow> jstring" where
  "trim s = rev (dropWhile isWhiteSpace (rev (dropWhile isWhiteSpace s)))"

text \<open>Three grave accents, the fence of a Markdown code block.\<close>

definition fence :: jstring where
  "fence = [96, 96, 96]"

text \<open>The class \<open>[\w]\<close>: ASCII letters, digits and the underscore.\<close>

definition isWordChar :: "nat \<Rightarrow> bool" where
  "isWordChar c \<longleftrightarrow> (65 \<le> c \<and> c \<le> 90) \<or> (97 \<le> c \<and> c \<le> 122) \<or> (48 \<le> c \<and> c \<le> 57) \<or> c = 95"

text \<open>
  \<open>s.replace(/^```[\w]*\n/, '')\<close>: without the \<open>m\<close> flag the pattern can only match
  at the start. After the fence the star takes every word character there is; a shorter
  run would be followed by a word character, not by the line feed, so the pattern
  matches exactly when the line feed follows the longest run, and the match is removed.
\<close>

definition removeOpeningFence :: "jstring \<Rightarrow> jstring" where
  "removeOpeningFence s =
     (if startsWith s fence then
        (case dropWhile isWordChar (drop 3 s) of
           [] \<Rightarrow> s
         | c # rest \<Rightarrow> if c = 10 then rest else s)
      else s)"

text \<open>
  \<open>s.replace(/\n```$/, '')\<close>: without the \<open>m\<close> flag \<open>$\<close> is the end of the string, so
  the only possible match is the last four code units.
\<close>

definition removeClosingFence :: "jstring \<Rightarrow> jstring" where
  "removeClosingFence s =
     (if 4 \<le> length s \<and> drop (length s - 4) s = 10 # fence then take (length s - 4) s else s)"

section \<open>The LLM client (planner, callOpenRouter)\<close>

text \<open>\<open>JSON.stringify(requestBody)\<close>: the members in the order of the object literal.\<close>

definition requestBodyJSON :: "jstring \<Rightarrow> jstring" where
  \<open>requestBodyJSON combinedPrompt =
     str ''{"contents":[{"parts":[{"text":'' @ quoteJSONString combinedPrompt @
     str ''}]}],"generationConfig":{"temperature":0.7,"topK":40,"topP":0.95,"maxOutputTokens":8192}}''\<close>

text \<open>
  \<open>data.candidates?.[0]?.content?.parts?.[0]?.text\<close>. The first read has no \<open>?.\<close>:
  on \<open>null\<close> it throws a TypeError (the message is the one of V8).
\<close>

definition candidateText :: "json \<Rightarrow> thrown + json option" where
  "candidateText data =
     (if data = JNull
      then Inl (ErrorObject (str ''Cannot read properties of null (reading 'candidates')''))
      else
        let candidates = getNamed data (str ''candidates'');
            candidate = optionalChain candidates getFirst;
            content = optionalChain candidate (\<lambda>v. getNamed v (str ''content''));
            parts = optionalChain content (\<lambda>v. getNamed v (str ''parts''));
            part = optionalChain parts getFirst
        in Inr (optionalChain part (\<lambda>v. getNamed v (str ''text''))))"

text \<open>The body of the \<open>try\<close> block after \<open>fetch\<close> has settled (steps 11D to 11F).\<close>

definition readResponse :: "thrown + response \<Rightarrow> thrown + json" where
  "readResponse fetched =
     (case fetched of
        Inl error \<Rightarrow> Inl error
      | Inr response \<Rightarrow>
          if \<not> ok response then
            (case responseText response of
               Inl error \<Rightarrow> Inl error
             | Inr errorText \<Rightarrow>
                 Inl (ErrorObject (str ''Gemini API request failed ('' @ showNat (status response)
                        @ str ''): '' @ errorText)))
          else
            (case responseJson response of
               Inl error \<Rightarrow> Inl error
             | Inr data \<Rightarrow>
                 (case candidateText data of
                    Inl error \<Rightarrow> Inl error
                  | Inr content \<Rightarrow>
                      if falsy content then Inl (ErrorObject (str ''No content in Gemini response''))
                      else (case content of
                              Some text \<Rightarrow> Inr text
                            | None \<Rightarrow> Inl (ErrorObject (str ''No content in Gemini response''))))))"

text \<open>The \<open>catch\<close> block (step 11G).\<close>

definition rethrow :: "thrown + json \<Rightarrow> thrown + json" where
  "rethrow outcome =
     (case outcome of
        Inl (ErrorObject message) \<Rightarrow> Inl (ErrorObject (str ''Failed to call Gemini API: '' @ message))
      | Inl (OtherValue v) \<Rightarrow> Inl (OtherValue v)
      | Inr content \<Rightarrow> Inr content)"

definition generateContentUrl :: "jstring \<Rightarrow> jstring \<Rightarrow> jstring" where
  "generateContentUrl model apiKey =
     str ''https://generativelanguage.googleapis.com/v1/models/'' @ model
       @ str '':generateContent?key='' @ apiKey"

definition callOpenRouter :: "'w platform \<Rightarrow> jstring \<Rightarrow> jstring \<Rightarrow> jstring \<Rightarrow> 'w state \<Rightarrow> (thrown + json) \<times> 'w state" where
  "callOpenRouter p systemPrompt userPrompt model st =
     (case env_GEMINI_API_KEY p (world st) of
        None \<Rightarrow> (Inl (ErrorObject (str ''GEMINI_API_KEY environment variable is not set'')), st)
      | Some apiKey \<Rightarrow>
          if apiKey = []
          then (Inl (ErrorObject (str ''GEMINI_API_KEY environment variable is not set'')), st)
          else
            let combinedPrompt = systemPrompt @ [10, 10] @ userPrompt;
                url = generateContentUrl model apiKey;
                (fetched, st') = callFetch p url (requestBodyJSON combinedPrompt) st
            in (rethrow (readResponse fetched), st'))"

section \<open>The plan executor (planner)\<close>

record PlanStep =
  step :: int
  action :: jstring
  description :: jstring
  files :: "jstring list option"
  reasoning :: jstring

datatype complexity = Low | Medium | High

record ExecutionPlan =
  summary :: jstring
  steps :: "PlanStep list"
  estimatedComplexity :: complexity
  prerequisites :: "jstring list"
  risks :: "jstring list"

text \<open>The two template strings of \<open>createFile\<close>.\<close>

definition createFileSystemPrompt :: jstring where
  "createFileSystemPrompt = str ''You are a code generation assistant. Generate ONLY the code content for the file, with no explanations, markdown formatting, or comments outside the code itself. The code should be production-ready and follow best practices.''"

definition createFileUserPrompt :: "jstring \<Rightarrow> PlanStep \<Rightarrow> jstring \<Rightarrow> jstring" where
  "createFileUserPrompt filePath s fileContext =
     str ''Create a new file at: '' @ filePath @
     str ''\<newline>\<newline>Task: '' @ action s @
     str ''\<newline>Description: '' @ description s @
     str ''\<newline>Reasoning: '' @ reasoning s @
     str ''\<newline>\<newline>Project context:\<newline>'' @ fileContext @
     str ''\<newline>\<newline>Generate the complete file content. Output ONLY the raw code with no markdown fences, no explanations, just the file content.''"

text \<open>The two template strings of \<open>modifyFile\<close>.\<close>

definition modifyFileSystemPrompt :: jstring where
  "modifyFileSystemPrompt = str ''You are a code modification assistant. You will receive the current content of a file and instructions for how to modify it. \<newline>\<newline>IMPORTANT: Return ONLY the complete, modified file content. Do not use markdown code fences, do not add explanations, do not add comments about what you changed. Just output the raw, complete file content with the modifications applied.''"

definition modifyFileUserPrompt :: "jstring \<Rightarrow> PlanStep \<Rightarrow> jstring \<Rightarrow> jstring \<Rightarrow> jstring" where
  "modifyFileUserPrompt filePath s fileContext currentContent =
     str ''Modify the file at: '' @ filePath @
     str ''\<newline>\<newline>Task: '' @ action s @
     str ''\<newline>Description: '' @ description s @
     str ''\<newline>Reasoning: '' @ reasoning s @
     str ''\<newline>\<newline>Project context:\<newline>'' @ fileContext @
     str ''\<newline>\<newline>Current file content:\<newline>'' @ currentContent @
     str ''\<newline>\<newline>Generate the COMPLETE modified file content with the requested changes applied. Output ONLY the raw code with no markdown fences, no explanations, just the complete file content.''"

text \<open>
  The clean-up of the model's answer, the value of the variable \<open>cleanContent\<close>: the
  same five statements stand in \<open>createFile\<close> and in \<open>modifyFile\<close>.
\<close>

definition cleanContent :: "jstring \<Rightarrow> jstring" where
  "cleanContent content =
     (let trimmed = trim content
      in if startsWith trimmed fence
         then removeClosingFence (removeOpeningFence trimmed)
         else trimmed)"

text \<open>
  The answer is typed as a string, but \<open>callOpenRouter\<close> returns whatever truthy value
  the response holds; \<open>trim\<close> of a value that is not a string throws a TypeError (the
  message is the one of V8).
\<close>

definition createFile :: "'w platform \<Rightarrow> jstring \<Rightarrow> PlanStep \<Rightarrow> jstring \<Rightarrow> 'w state \<Rightarrow> thrown option \<times> 'w state" where
  "createFile p filePath s rootDir st0 =
     (let systemPrompt = createFileSystemPrompt;
          (tree, st1) = callGetFileTreeString p rootDir st0
      in case tree of
           Inl error \<Rightarrow> (Some error, st1)
         | Inr fileContext \<Rightarrow>
             let userPrompt = createFileUserPrompt filePath s fileContext;
                 (answer, st2) = callOpenRouter p systemPrompt userPrompt (str ''gemini-2.5-pro'') st1
             in (case answer of
                  Inl error \<Rightarrow> (Some error, st2)
                | Inr (JString content) \<Rightarrow>
                    let dir = dirname p filePath;
                        (dirExists, st3) = callExistsSync p dir st2;
                        (made, st4) = (if \<not> dirExists then callMkdirSync p dir st3 else (None, st3))
                    in (case made of
                          Some error \<Rightarrow> (Some error, st4)
                        | None \<Rightarrow> callWriteFileSync p filePath (cleanContent content) st4)
                | Inr other \<Rightarrow> (Some (ErrorObject (str ''content.trim is not a function'')), st2)))"

definition modifyFile :: "'w platform \<Rightarrow> jstring \<Rightarrow> PlanStep \<Rightarrow> jstring \<Rightarrow> 'w state \<Rightarrow> thrown option \<times> 'w state" where
  "modifyFile p filePath s rootDir st0 =
     (let (current, st1) = callReadFileSync p filePath st0
      in case current of
           Inl error \<Rightarrow> (Some error, st1)
         | Inr currentContent \<Rightarrow>
             let systemPrompt = modifyFileSystemPrompt;
                 (tree, st2) = callGetFileTreeString p rootDir st1
             in (case tree of
                  Inl error \<Rightarrow> (Some error, st2)
                | Inr fileContext \<Rightarrow>
                    let userPrompt = modifyFileUserPrompt filePath s fileContext currentContent;
                        (answer, st3) = callOpenRouter p systemPrompt userPrompt (str ''gemini-2.5-pro'') st2
                    in (case answer of
                         Inl error \<Rightarrow> (Some error, st3)
                       | Inr (JString modifiedContent) \<Rightarrow>
                           callWriteFileSync p filePath (cleanContent modifiedContent) st3
                       | Inr other \<Rightarrow>
                           (Some (ErrorObject (str ''modifiedContent.trim is not a function'')), st3))))"

text \<open>
  The loop of \<open>executeStep\<close> over \<open>step.files\<close>; it ends at the first call that throws.
\<close>

fun processFiles :: "'w platform \<Rightarrow> PlanStep \<Rightarrow> jstring \<Rightarrow> jstring list \<Rightarrow> 'w state \<Rightarrow> thrown option \<times> 'w state" where
  "processFiles p s rootDir [] st = (None, st)"
| "processFiles p s rootDir (filePath # rest) st =
     (let fullPath = rootDir @ str ''/'' @ filePath;
          (fileExists, st1) = callExistsSync p fullPath st;
          (outcome, st2) =
            (if fileExists then modifyFile p fullPath s rootDir st1
             else createFile p fullPath s rootDir st1)
      in case outcome of
           Some error \<Rightarrow> (Some error, st2)
         | None \<Rightarrow> processFiles p s rootDir rest st2)"

record StepResult =
  success :: bool
  message :: jstring

definition executeStep :: "'w platform \<Rightarrow> PlanStep \<Rightarrow> jstring \<Rightarrow> 'w state \<Rightarrow> StepResult \<times> 'w state" where
  "executeStep p s rootDir st =
     (if files s = None \<or> files s = Some []
      then (\<lparr>success = True,
             message = str ''No files to modify (documentation or verification step)''\<rparr>, st)
      else
        case processFiles p s rootDir (case files s of Some fs \<Rightarrow> fs | None \<Rightarrow> []) st of
          (None, st') \<Rightarrow>
            (\<lparr>success = True, message = str ''Successfully completed: '' @ action s\<rparr>, st')
        | (Some (ErrorObject m), st') \<Rightarrow> (\<lparr>success = False, message = m\<rparr>, st')
        | (Some (OtherValue v), st') \<Rightarrow> (\<lparr>success = False, message = v\<rparr>, st'))"

record ExecutionResult =
  totalSteps :: nat
  successCount :: nat
  failedSteps :: "int list"

text \<open>The loop of \<open>executePlan\<close> over \<open>plan.steps\<close>, with the object \<open>results\<close>.\<close>

fun runSteps :: "'w platform \<Rightarrow> jstring \<Rightarrow> bool \<Rightarrow> PlanStep list \<Rightarrow> ExecutionResult \<Rightarrow> 'w state \<Rightarrow> ExecutionResult \<times> 'w state" where
  "runSteps p rootDir continueOnError [] results st = (results, st)"
| "runSteps p rootDir continueOnError (s # rest) results st =
     (let (result, st') = executeStep p s rootDir st
      in if success result
         then runSteps p rootDir continueOnError rest
                (results\<lparr>successCount := successCount results + 1\<rparr>) st'
         else
           let results' = results\<lparr>failedSteps := failedSteps results @ [step s]\<rparr>
           in if \<not> continueOnError then (results', st')
              else runSteps p rootDir continueOnError rest results' st')"

definition executePlan :: "'w platform \<Rightarrow> ExecutionPlan \<Rightarrow> jstring \<Rightarrow> bool \<Rightarrow> 'w state \<Rightarrow> ExecutionResult \<times> 'w state" where
  "executePlan p plan rootDir continueOnError st =
     runSteps p rootDir continueOnError (steps plan)
       \<lparr>totalSteps = length (steps plan), successCount = 0, failedSteps = []\<rparr> st"

section \<open>An in-memory platform\<close>

text \<open>
  One platform among all, to run the executor on concrete plans: the world is the list
  of the stored files with their contents and the number of \<open>fetch\<close> calls so far;
  a path exists when a file is stored at it, \<open>mkdirSync\<close> succeeds and changes nothing,
  the API key is set, and \<open>fetch\<close> answers with the given response, except that the
  call number \<open>failAt\<close> (counting from 0) is rejected. \<open>textResponse\<close> is the
  response with status 200 whose first candidate holds the given text.
\<close>

record memory =
  stored :: "(jstring \<times> jstring) list"
  calls :: nat

definition textResponse :: "jstring \<Rightarrow> response" where
  "textResponse answer =
     \<lparr>ok = True, status = 200, responseText = Inr [],
      responseJson = Inr (JObject [(str ''candidates'',
        JArray [JObject [(str ''content'',
          JObject [(str ''parts'', JArray [JObject [(str ''text'', JString answer)]])])]])])\<rparr>"

definition memoryPlatform :: "nat \<Rightarrow> response \<Rightarrow> memory platform" where
  "memoryPlatform failAt answer =
     \<lparr>env_GEMINI_API_KEY = (\<lambda>w. Some (str ''key'')),
      fetch = (\<lambda>url body w.
        (if calls w = failAt then Inl (ErrorObject (str ''fetch failed''))
         else Inr answer,
         w\<lparr>calls := calls w + 1\<rparr>)),
      existsSync = (\<lambda>path w. map_of (stored w) path \<noteq> None),
      readFileSync = (\<lambda>path w.
        case map_of (stored w) path of
          None \<Rightarrow> Inl (ErrorObject (str ''ENOENT''))
        | Some content \<Rightarrow> Inr content),
      writeFileSync = (\<lambda>path content w. (None, w\<lparr>stored := (path, content) # stored w\<rparr>)),
      mkdirSync = (\<lambda>path w. (None, w)),
      dirname = (\<lambda>path. rev (drop 1 (dropWhile (\<lambda>c. c \<noteq> 47) (rev path)))),
      getFileTreeString = (\<lambda>rootDir w. Inr (str ''tree''))\<rparr>"

text \<open>A success whose body is the empty object, and a failure of the upstream.\<close>

definition emptyObjectResponse :: response where
  "emptyObjectResponse =
     \<lparr>ok = True, status = 200, responseText = Inr (str ''{}''), responseJson = Inr (JObject [])\<rparr>"

definition overloadedResponse :: response where
  "overloadedResponse =
     \<lparr>ok = False, status = 503, responseText = Inr (str ''overloaded''),
      responseJson = Inl (ErrorObject (str ''Unexpected token''))\<rparr>"

definition emptyMemory :: "memory state" where
  "emptyMemory = \<lparr>world = \<lparr>stored = [], calls = 0\<rparr>, trace = []\<rparr>"

text \<open>A step of a concrete plan: its number, its action and its files.\<close>

definition planStep :: "int \<Rightarrow> string \<Rightarrow> jstring list option \<Rightarrow> PlanStep" where
  "planStep n a fs =
     \<lparr>step = n, action = str a, description = str ''d'', files = fs, reasoning = str ''r''\<rparr>"

definition planOf :: "PlanStep list \<Rightarrow> ExecutionPlan" where
  "planOf ss =
     \<lparr>summary = str ''x'', steps = ss, estimatedComplexity = Low, prerequisites = [], risks = []\<rparr>"

section \<open>Reading a trace\<close>

text \<open>The files written in a trace, in order: path and content of every \<open>writeFileSync\<close>.\<close>

fun writesOf :: "event list \<Rightarrow> (jstring \<times> jstring) list" where
  "writesOf [] = []"
| "writesOf (WriteFile path content # es) = (path, content) # writesOf es"
| "writesOf (e # es) = writesOf es"

text \<open>The network calls made in a trace: URL and body of every \<open>fetch\<close>.\<close>

fun fetchesOf :: "event list \<Rightarrow> (jstring \<times> jstring) list" where
  "fetchesOf [] = []"
| "fetchesOf (Fetch url body # es) = (url, body) # fetchesOf es"
| "fetchesOf (e # es) = fetchesOf es"

definition beginsWithWhiteSpace :: "jstring \<Rightarrow> bool" where
  "beginsWithWhiteSpace s = (case s of [] \<Rightarrow> False | c # cs \<Rightarrow> isWhiteSpace c)"

definition endsWithWhiteSpace :: "jstring \<Rightarrow> bool" where
  "endsWithWhiteSpace s = beginsWithWhiteSpace (rev s)"

section \<open>JSON.parse\<close>

text \<open>
  \<open>JSON.parse\<close> reads the JSON grammar of ECMA-404 from a string of code units:
  white space is TAB, LF, CR and SP; a string may hold any code unit from U+0020 on but
  the double quote and the backslash, and the escapes
  \<open>\" \\ \/ \b \f \n \r \t \uXXXX\<close>; a number is an optional minus, \<open>0\<close> or a digit
  from 1 to 9 and more digits, an optional fraction and an optional exponent; the
  literals are \<open>true\<close>, \<open>false\<close> and \<open>null\<close>.
\<close>

definition isJSONWhiteSpace :: "nat \<Rightarrow> bool" where
  "isJSONWhiteSpace c \<longleftrightarrow> c = 9 \<or> c = 10 \<or> c = 13 \<or> c = 32"

definition skipWhiteSpace :: "jstring \<Rightarrow> jstring" where
  "skipWhiteSpace s = dropWhile isJSONWhiteSpace s"

definition isDigit :: "nat \<Rightarrow> bool" where
  "isDigit c \<longleftrightarrow> 48 \<le> c \<and> c \<le> 57"

definition isHexDigit :: "nat \<Rightarrow> bool" where
  "isHexDigit c \<longleftrightarrow> isDigit c \<or> (97 \<le> c \<and> c \<le> 102) \<or> (65 \<le> c \<and> c \<le> 70)"

definition hexValue :: "nat \<Rightarrow> nat" where
  "hexValue c = (if isDigit c then c - 48 else if 97 \<le> c then c - 87 else c - 55)"

text \<open>The code unit of a two-character escape, by the character after the backslash.\<close>

definition simpleEscape :: "nat \<Rightarrow> nat option" where
  "simpleEscape e =
     (if e = 34 then Some 34
      else if e = 92 then Some 92
      else if e = 47 then Some 47
      else if e = 98 then Some 8
      else if e = 102 then Some 12
      else if e = 110 then Some 10
      else if e = 114 then Some 13
      else if e = 116 then Some 9
      else None)"

text \<open>
  The characters of a string after its opening quote, up to the closing quote: the code
  units of the string and what follows the closing quote.
\<close>

fun parseChars :: "jstring \<Rightarrow> (jstring \<times> jstring) option" where
  "parseChars [] = None"
| "parseChars (c # cs) =
     (if c = 34 then Some ([], cs)
      else if c = 92 then
        (case cs of
           [] \<Rightarrow> None
         | e # es \<Rightarrow>
             if e = 117 then
               (case es of
                  h1 # h2 # h3 # h4 # rest \<Rightarrow>
                    if isHexDigit h1 \<and> isHexDigit h2 \<and> isHexDigit h3 \<and> isHexDigit h4
                    then map_option
                           (\<lambda>(t, r). ((hexValue h1 * 4096 + hexValue h2 * 256
                                          + hexValue h3 * 16 + hexValue h4) # t, r))
                           (parseChars rest)
                    else None
                | _ \<Rightarrow> None)
             else
               (case simpleEscape e of
                  None \<Rightarrow> None
                | Some u \<Rightarrow> map_option (\<lambda>(t, r). (u # t, r)) (parseChars es)))
      else if c < 32 then None
      else map_option (\<lambda>(t, r). (c # t, r)) (parseChars cs))"

definition natOfDigits :: "jstring \<Rightarrow> nat" where
  "natOfDigits ds = foldl (\<lambda>n d. 10 * n + (d - 48)) 0 ds"

text \<open>
  A number: the literal's sign, the digits of its integer and fraction parts read as one
  natural number, and its exponent less the number of fraction digits.
\<close>

definition parseExponent :: "jstring \<Rightarrow> (int \<times> jstring) option" where
  "parseExponent s =
     (case s of
        [] \<Rightarrow> Some (0, s)
      | e # r \<Rightarrow>
          if e = 101 \<or> e = 69 then
            (let (minus, r') =
                   (case r of
                      [] \<Rightarrow> (False, r)
                    | g # x \<Rightarrow> if g = 43 then (False, x) else if g = 45 then (True, x) else (False, r));
                 ds = takeWhile isDigit r'
             in if ds = [] then None
                else Some ((if minus then - int (natOfDigits ds) else int (natOfDigits ds)),
                           dropWhile isDigit r'))
          else Some (0, s))"

definition parseFraction :: "jstring \<Rightarrow> (jstring \<times> jstring) option" where
  "parseFraction s =
     (case s of
        [] \<Rightarrow> Some ([], s)
      | d # r \<Rightarrow>
          if d = 46 then
            (let ds = takeWhile isDigit r
             in if ds = [] then None else Some (ds, dropWhile isDigit r))
          else Some ([], s))"

definition parseInteger :: "jstring \<Rightarrow> (jstring \<times> jstring) option" where
  "parseInteger s =
     (case s of
        [] \<Rightarrow> None
      | d # r \<Rightarrow>
          if d = 48 then Some ([48], r)
          else if 49 \<le> d \<and> d \<le> 57 then Some (d # takeWhile isDigit r, dropWhile isDigit r)
          else None)"

definition parseNumber :: "jstring \<Rightarrow> (jnumber \<times> jstring) option" where
  "parseNumber s =
     (let (minus, s1) = (case s of [] \<Rightarrow> (False, s) | c # r \<Rightarrow> if c = 45 then (True, r) else (False, s))
      in case parseInteger s1 of
           None \<Rightarrow> None
         | Some (whole, s2) \<Rightarrow>
             (case parseFraction s2 of
                None \<Rightarrow> None
              | Some (fraction, s3) \<Rightarrow>
                  (case parseExponent s3 of
                     None \<Rightarrow> None
                   | Some (e, s4) \<Rightarrow>
                       Some (JNum minus (natOfDigits (whole @ fraction)) (e - int (length fraction)),
                             s4))))"

text \<open>
  The members of an object as the engine keeps them. A name that is an array index (the
  canonical decimal of an integer below \<open>2 ^ 32 - 1\<close>) comes before every other name,
  the indices in ascending order; the other names stay in the order of their creation;
  a name that is defined again keeps its place and takes the new value.
\<close>

definition isArrayIndex :: "jstring \<Rightarrow> bool" where
  "isArrayIndex name \<longleftrightarrow>
     name \<noteq> [] \<and> list_all isDigit name \<and> (name = [48] \<or> hd name \<noteq> 48)
     \<and> natOfDigits name < 4294967295"

fun insertIndex :: "jstring \<Rightarrow> json \<Rightarrow> (jstring \<times> json) list \<Rightarrow> (jstring \<times> json) list" where
  "insertIndex name v [] = [(name, v)]"
| "insertIndex name v ((k, w) # ms) =
     (if isArrayIndex k \<and> natOfDigits k < natOfDigits name
      then (k, w) # insertIndex name v ms
      else (name, v) # (k, w) # ms)"

definition defineMember :: "(jstring \<times> json) list \<Rightarrow> jstring \<times> json \<Rightarrow> (jstring \<times> json) list" where
  "defineMember ms m =
     (if fst m \<in> fst ` set ms then map (\<lambda>(k, w). if k = fst m then m else (k, w)) ms
      else if isArrayIndex (fst m) then insertIndex (fst m) (snd m) ms
      else ms @ [m])"

definition objectOf :: "(jstring \<times> json) list \<Rightarrow> json" where
  "objectOf members = JObject (foldl defineMember [] members)"

text \<open>
  The parser descends into the values of arrays and objects. It is written with a bound
  on the number of nested calls, so that it is a total function; \<open>JSON_parse\<close> gives it a
  bound that no text reaches (\<open>JSON_parse_completes\<close> below). \<open>Value\<close> reads one value;
  \<open>Elements\<close> reads the elements of an array after its bracket, up to the closing
  bracket, and gives them as an array; \<open>Members\<close> reads the members of an object after
  its brace, up to the closing brace, and gives them in the order of the text.
\<close>

datatype mode = Value | Elements | Members

datatype outcome = OutOfFuel | Invalid | Parsed json jstring

fun parse :: "mode \<Rightarrow> nat \<Rightarrow> jstring \<Rightarrow> outcome" where
  "parse m 0 s = OutOfFuel"
| "parse Value (Suc n) s =
     (case s of
        [] \<Rightarrow> Invalid
      | c # cs \<Rightarrow>
          if c = 123 then
            (case skipWhiteSpace cs of
               [] \<Rightarrow> Invalid
             | d # rest \<Rightarrow>
                 if d = 125 then Parsed (JObject []) rest
                 else (case parse Members n (d # rest) of
                         Parsed (JObject members) rest' \<Rightarrow> Parsed (objectOf members) rest'
                       | Parsed other rest' \<Rightarrow> Invalid
                       | failure \<Rightarrow> failure))
          else if c = 91 then
            (case skipWhiteSpace cs of
               [] \<Rightarrow> Invalid
             | d # rest \<Rightarrow>
                 if d = 93 then Parsed (JArray []) rest
                 else parse Elements n (d # rest))
          else if c = 34 then
            (case parseChars cs of
               None \<Rightarrow> Invalid
             | Some (t, rest) \<Rightarrow> Parsed (JString t) rest)
          else if c = 45 \<or> isDigit c then
            (case parseNumber s of
               None \<Rightarrow> Invalid
             | Some (x, rest) \<Rightarrow> Parsed (JNumber x) rest)
          else if startsWith s (str ''true'') then Parsed (JBool True) (drop 4 s)
          else if startsWith s (str ''false'') then Parsed (JBool False) (drop 5 s)
          else if startsWith s (str ''null'') then Parsed JNull (drop 4 s)
          else Invalid)"
| "parse Elements (Suc n) s =
     (case parse Value n s of
        Parsed v rest \<Rightarrow>
          (case skipWhiteSpace rest of
             [] \<Rightarrow> Invalid
           | d # r \<Rightarrow>
               if d = 44 then
                 (case parse Elements n (skipWhiteSpace r) of
                    Parsed (JArray vs) rest' \<Rightarrow> Parsed (JArray (v # vs)) rest'
                  | Parsed other rest' \<Rightarrow> Invalid
                  | failure \<Rightarrow> failure)
               else if d = 93 then Parsed (JArray [v]) r
               else Invalid)
      | failure \<Rightarrow> failure)"
| "parse Members (Suc n) s =
     (case s of
        [] \<Rightarrow> Invalid
      | q # cs \<Rightarrow>
          if q = 34 then
            (case parseChars cs of
               None \<Rightarrow> Invalid
             | Some (name, rest) \<Rightarrow>
                 (case skipWhiteSpace rest of
                    [] \<Rightarrow> Invalid
                  | colon # r \<Rightarrow>
                      if colon = 58 then
                        (case parse Value n (skipWhiteSpace r) of
                           Parsed v rest' \<Rightarrow>
                             (case skipWhiteSpace rest' of
                                [] \<Rightarrow> Invalid
                              | d # r' \<Rightarrow>
                                  if d = 44 then
                                    (case parse Members n (skipWhiteSpace r') of
                                       Parsed (JObject members) rest'' \<Rightarrow>
                                         Parsed (JObject ((name, v) # members)) rest''
                                     | Parsed other rest'' \<Rightarrow> Invalid
                                     | failure \<Rightarrow> failure)
                                  else if d = 125 then Parsed (JObject [(name, v)]) r'
                                  else Invalid)
                         | failure \<Rightarrow> failure)
                      else Invalid))
          else Invalid)"

definition JSON_parse :: "jstring \<Rightarrow> json option" where
  "JSON_parse text =
     (case parse Value (2 * length text + 2) (skipWhiteSpace text) of
        Parsed v rest \<Rightarrow> if skipWhiteSpace rest = [] then Some v else None
      | failure \<Rightarrow> None)"

section \<open>The plan parser (planner, parsePlanResponse)\<close>

text \<open>
  \<open>llmResponse.match(/\{[\s\S]*\}/)\<close>: the engine tries the start positions from the
  left. At an opening brace the star first takes all that follows and gives back code
  units until a closing brace is the next one, so the match ends at the last closing
  brace after the start; when there is none the next start position is tried.
\<close>

definition upToLastBrace :: "jstring \<Rightarrow> jstring option" where
  "upToLastBrace s =
     (case dropWhile (\<lambda>c. c \<noteq> 125) (rev s) of
        [] \<Rightarrow> None
      | c # cs \<Rightarrow> Some (rev (c # cs)))"

fun matchBraces :: "jstring \<Rightarrow> jstring option" where
  "matchBraces [] = None"
| "matchBraces (c # cs) =
     (if c = 123 then
        (case upToLastBrace cs of
           Some t \<Rightarrow> Some (c # t)
         | None \<Rightarrow> matchBraces cs)
      else matchBraces cs)"

definition isArray :: "json option \<Rightarrow> bool" where
  "isArray v = (case v of Some (JArray xs) \<Rightarrow> True | _ \<Rightarrow> False)"

text \<open>
  Every \<open>throw\<close> in the \<open>try\<close> block, and the TypeError of reading a property of
  \<open>null\<close>, ends in the \<open>catch\<close> block, which returns \<open>null\<close> (\<open>None\<close>). What the
  \<open>catch\<close> block prints with \<open>console.error\<close> is left out: the function has no other
  effect and nothing reads the console.
\<close>

definition parsePlanResponse :: "jstring \<Rightarrow> json option" where
  "parsePlanResponse llmResponse =
     (case matchBraces llmResponse of
        None \<Rightarrow> None
      | Some jsonText \<Rightarrow>
          (case JSON_parse jsonText of
             None \<Rightarrow> None
           | Some plan \<Rightarrow>
               if plan = JNull then None
               else if falsy (getNamed plan (str ''summary'')) \<or> falsy (getNamed plan (str ''steps''))
                       \<or> \<not> isArray (getNamed plan (str ''steps''))
               then None
               else Some plan))"


section \<open>JSON.stringify\<close>

text \<open>
  \<open>JSON.stringify\<close> of a value that has a JSON text, without indentation: the literals,
  a number as \<open>Number::toString\<close> writes it, a string as \<open>quoteJSONString\<close> writes it, the
  elements of an array between brackets and the members of an object between braces,
  in the order the engine keeps them, separated by commas, a colon after each name.
  The conversion of a number to a string is a parameter, \<open>numberToString\<close>: it works on
  the double a literal denotes, which is not modelled. What is used of it is
  \<open>printsSafeIntegers\<close>: an integer of magnitude below \<open>2 ^ 53\<close> is written with its decimal
  digits, after a minus sign when it is negative.
\<close>

fun JSON_stringify :: "(jnumber \<Rightarrow> jstring) \<Rightarrow> json \<Rightarrow> jstring"
  and stringifyElements :: "(jnumber \<Rightarrow> jstring) \<Rightarrow> json list \<Rightarrow> jstring"
  and stringifyMembers :: "(jnumber \<Rightarrow> jstring) \<Rightarrow> (jstring \<times> json) list \<Rightarrow> jstring"
where
  "JSON_stringify numberToString JNull = str ''null''"
| "JSON_stringify numberToString (JBool b) = (if b then str ''true'' else str ''false'')"
| "JSON_stringify numberToString (JNumber x) = numberToString x"
| "JSON_stringify numberToString (JString s) = quoteJSONString s"
| "JSON_stringify numberToString (JArray xs) = 91 # stringifyElements numberToString xs @ [93]"
| "JSON_stringify numberToString (JObject ms) = 123 # stringifyMembers numberToString ms @ [125]"
| "stringifyElements numberToString [] = []"
| "stringifyElements numberToString [x] = JSON_stringify numberToString x"
| "stringifyElements numberToString (x # y # xs) =
     JSON_stringify numberToString x @ 44 # stringifyElements numberToString (y # xs)"
| "stringifyMembers numberToString [] = []"
| "stringifyMembers numberToString [(k, v)] = quoteJSONString k @ 58 # JSON_stringify numberToString v"
| "stringifyMembers numberToString ((k, v) # m # ms) =
     quoteJSONString k @ 58 # JSON_stringify numberToString v
       @ 44 # stringifyMembers numberToString (m # ms)"

definition printsSafeIntegers :: "(jnumber \<Rightarrow> jstring) \<Rightarrow> bool" where
  "printsSafeIntegers numberToString \<longleftrightarrow>
     (\<forall>n < 2 ^ 53. numberToString (JNum False n 0) = showNat n
                   \<and> numberToString (JNum True (Suc n) 0) = 45 # showNat (Suc n))"

text \<open>A conversion that writes every literal with exponent 0 as its digits.\<close>

definition integerToString :: "jnumber \<Rightarrow> jstring" where
  "integerToString x =
     (if negative x \<and> digits x \<noteq> 0 then 45 # showNat (digits x) else showNat (digits x))"

section \<open>Plans as values\<close>

text \<open>
  A safe integer \<open>n\<close> as the number literal that \<open>JSON.parse\<close> reads from its decimal
  digits.
\<close>

definition integerNumber :: "int \<Rightarrow> jnumber" where
  "integerNumber n = JNum (n < 0) (nat \<bar>n\<bar>) 0"

definition isSafeInteger :: "jnumber \<Rightarrow> bool" where
  "isSafeInteger x \<longleftrightarrow> exponent x = 0 \<and> digits x < 2 ^ 53 \<and> (negative x \<longrightarrow> digits x \<noteq> 0)"

text \<open>
  The values that are written and read back unchanged by the model: the numbers are safe
  integers, and the members of every object are in the order in which the engine keeps
  them, no name twice.
\<close>

fun wireValue :: "json \<Rightarrow> bool"
  and wireElements :: "json list \<Rightarrow> bool"
  and wireMembers :: "(jstring \<times> json) list \<Rightarrow> bool"
where
  "wireValue JNull = True"
| "wireValue (JBool b) = True"
| "wireValue (JNumber x) = isSafeInteger x"
| "wireValue (JString s) = True"
| "wireValue (JArray xs) = wireElements xs"
| "wireValue (JObject ms) = (foldl defineMember [] ms = ms \<and> wireMembers ms)"
| "wireElements [] = True"
| "wireElements (x # xs) = (wireValue x \<and> wireElements xs)"
| "wireMembers [] = True"
| "wireMembers ((k, v) # ms) = (wireValue v \<and> wireMembers ms)"

text \<open>
  The object that a plan of the interface \<open>ExecutionPlan\<close> is, its properties in the order
  of the interface; the optional \<open>files\<close> of a step is a property only when it is there.
\<close>

definition complexityString :: "complexity \<Rightarrow> jstring" where
  "complexityString c = (case c of Low \<Rightarrow> str ''low'' | Medium \<Rightarrow> str ''medium'' | High \<Rightarrow> str ''high'')"

definition valueOfStep :: "PlanStep \<Rightarrow> json" where
  "valueOfStep s =
     JObject ([(str ''step'', JNumber (integerNumber (step s))),
               (str ''action'', JString (action s)),
               (str ''description'', JString (description s))]
              @ (case files s of
                   None \<Rightarrow> []
                 | Some fs \<Rightarrow> [(str ''files'', JArray (map JString fs))])
              @ [(str ''reasoning'', JString (reasoning s))])"

definition valueOfPlan :: "ExecutionPlan \<Rightarrow> json" where
  "valueOfPlan p =
     JObject [(str ''summary'', JString (summary p)),
              (str ''steps'', JArray (map valueOfStep (steps p))),
              (str ''estimatedComplexity'', JString (complexityString (estimatedComplexity p))),
              (str ''prerequisites'', JArray (map JString (prerequisites p))),
              (str ''risks'', JArray (map JString (risks p)))]"
section \<open>Properties of the relevance filter and the intent classifier\<close>

lemma startsWith_iff_prefix: "startsWith s p \<longleftrightarrow> prefix p s"
  by (induction s p rule: startsWith.induct) auto

lemma includesStr_iff_sublist: "includesStr s t \<longleftrightarrow> sublist t s"
proof (induction s)
  case Nil
  then show ?case by simp
next
  case (Cons c cs)
  then show ?case
    by (simp add: startsWith_iff_prefix sublist_Cons_right)
qed

lemma lowersASCII_apply:
  "lowersASCII toLowerCase \<Longrightarrow> list_all (\<lambda>c. c < 128) s \<Longrightarrow> toLowerCase s = map asciiLower s"
  by (simp add: lowersASCII_def list_all_iff)

lemma lowersASCII_asciiLowerCase: "lowersASCII asciiLowerCase"
  by (simp add: lowersASCII_def asciiLowerCase_def)

lemma splitRuns_tokens_sepfree:
  "\<forall>c\<in>set cur. \<not> isSeparator c \<Longrightarrow>
   \<forall>t\<in>set (splitRuns cur s). \<forall>c\<in>set t. \<not> isSeparator c"
proof (induction cur s rule: splitRuns.induct)
  case (1 cur)
  then show ?case by simp
next
  case (2 cur c cs)
  show ?case
  proof (intro ballI)
    fix t d
    assume t: "t \<in> set (splitRuns cur (c # cs))" and d: "d \<in> set t"
    show "\<not> isSeparator d"
    proof (cases "isSeparator c")
      case True
      have ih: "\<forall>t\<in>set (splitRuns [] (dropWhile isSeparator cs)). \<forall>c\<in>set t. \<not> isSeparator c"
        by (rule "2.IH"(1) [OF True]) simp
      from t True have "t = cur \<or> t \<in> set (splitRuns [] (dropWhile isSeparator cs))"
        by simp
      with d ih "2.prems" show ?thesis by blast
    next
      case False
      have "\<forall>c\<in>set (cur @ [c]). \<not> isSeparator c"
        using False "2.prems" by simp
      then have ih: "\<forall>t\<in>set (splitRuns (cur @ [c]) cs). \<forall>c\<in>set t. \<not> isSeparator c"
        by (rule "2.IH"(2) [OF False])
      from t False have "t \<in> set (splitRuns (cur @ [c]) cs)"
        by simp
      with d ih show ?thesis by blast
    qed
  qed
qed

lemma splitRuns_word:
  "\<forall>c\<in>set t. \<not> isSeparator c \<Longrightarrow> splitRuns cur (t @ rest) = splitRuns (cur @ t) rest"
proof (induction t arbitrary: cur)
  case Nil
  then show ?case by simp
next
  case (Cons c t)
  then have "\<not> isSeparator c" and "\<forall>d\<in>set t. \<not> isSeparator d"
    by simp_all
  with Cons.IH [of "cur @ [c]"] show ?case
    by simp
qed

lemma dropWhile_run:
  "\<forall>c\<in>set r. isSeparator c \<Longrightarrow> \<not> beginsWithSeparator u \<Longrightarrow> dropWhile isSeparator (r @ u) = u"
proof (induction r)
  case Nil
  then show ?case
    by (cases u) (simp_all add: beginsWithSeparator_def)
next
  case (Cons c r)
  then show ?case by simp
qed

lemma splitSeparators_word:
  "\<forall>c\<in>set t. \<not> isSeparator c \<Longrightarrow> splitSeparators t = [t]"
  using splitRuns_word [of t "[]" "[]"] by (simp add: splitSeparators_def)

lemma splitSeparators_cut:
  assumes "\<forall>c\<in>set t. \<not> isSeparator c" and "r \<noteq> []" and "\<forall>c\<in>set r. isSeparator c"
    and "\<not> beginsWithSeparator u"
  shows "splitSeparators (t @ r @ u) = t # splitSeparators u"
proof -
  from assms(2) obtain c r' where r: "r = c # r'"
    by (cases r) auto
  with assms(3) have c: "isSeparator c" and r': "\<forall>c\<in>set r'. isSeparator c"
    by simp_all
  have "splitSeparators (t @ r @ u) = splitRuns t (c # r' @ u)"
    using splitRuns_word [OF assms(1), of "[]" "r @ u"] by (simp add: splitSeparators_def r)
  also have "\<dots> = t # splitRuns [] (dropWhile isSeparator (r' @ u))"
    using c by simp
  also have "\<dots> = t # splitSeparators u"
    using dropWhile_run [OF r' assms(4)] by (simp add: splitSeparators_def)
  finally show ?thesis .
qed

lemma scanAllFiles_eq:
  "scanAllFiles toLowerCase kws refs fs acc =
     acc @ filter (\<lambda>f. f \<notin> set refs \<and>
                       list_ex (\<lambda>k. includesStr (toLowerCase f) (toLowerCase k)) kws) fs"
  by (induction toLowerCase kws refs fs acc rule: scanAllFiles.induct) (auto simp: Let_def)

lemma filterRelevantFiles_eq:
  "filterRelevantFiles toLowerCase userInput referencedFiles allFiles =
     take 20 (referencedFiles @
       filter (\<lambda>f. f \<notin> set referencedFiles \<and>
                  list_ex (\<lambda>k. includesStr (toLowerCase f) (toLowerCase k))
                    (extractKeywords toLowerCase userInput)) allFiles)"
  by (simp add: filterRelevantFiles_def Let_def scanAllFiles_eq)

subsection \<open>C5: the intent classifier returns the label of the first group with a hit\<close>

text \<open>
  Claim C5. \<open>extractIntent\<close> (the specification's \<open>classifyIntent\<close>) lowercases its
  input and returns the label of the first trigger-word group, in the order create,
  modify, fix, remove, refactor, test, documentation, one of whose words is a substring
  of the lowercased input, and \<open>General code changes\<close> when no group has a hit. This holds
  for every input and whatever \<open>toLowerCase\<close> does beyond ASCII. With a \<open>toLowerCase\<close>
  that lowers ASCII as the built-in does, "Add a new login page" and "Fix the crash on
  add" are both classified as \<open>Create/Add new functionality\<close>, since the create group is
  tried before the fix group; "FIX THE CRASH" is classified as \<open>Fix bugs or errors\<close>,
  which it is only because the input is lowercased; "Update the README" is a
  modification, not documentation; and each other label and the fallback are reached.
\<close>

theorem extractIntent_first_group:
  "extractIntent toLowerCase input = firstGroupLabel intentGroups (toLowerCase input)
   \<and> map snd intentGroups =
       map str [''Create/Add new functionality'', ''Modify existing functionality'',
                ''Fix bugs or errors'', ''Remove/Delete functionality'',
                ''Refactor/Improve code'', ''Add or modify tests'',
                ''Add or update documentation'']
   \<and> map fst intentGroups =
       map (map str) [[''add'', ''create'', ''new''], [''modify'', ''change'', ''update''],
                      [''fix'', ''bug'', ''error''], [''remove'', ''delete'', ''clean''],
                      [''refactor'', ''improve'', ''optimize''], [''test'', ''testing''],
                      [''document'', ''comment'', ''readme'']]
   \<and> (lowersASCII toLowerCase \<longrightarrow>
        extractIntent toLowerCase (str ''Add a new login page'') = str ''Create/Add new functionality''
      \<and> extractIntent toLowerCase (str ''Fix the crash on add'') = str ''Create/Add new functionality''
      \<and> extractIntent toLowerCase (str ''FIX THE CRASH'') = str ''Fix bugs or errors''
      \<and> extractIntent toLowerCase (str ''Update the README'') = str ''Modify existing functionality''
      \<and> extractIntent toLowerCase (str ''Remove dead code'') = str ''Remove/Delete functionality''
      \<and> extractIntent toLowerCase (str ''Refactor the parser'') = str ''Refactor/Improve code''
      \<and> extractIntent toLowerCase (str ''Write unit tests'') = str ''Add or modify tests''
      \<and> extractIntent toLowerCase (str ''Document the API'') = str ''Add or update documentation''
      \<and> extractIntent toLowerCase (str ''Hello World'') = str ''General code changes'')"
proof -
  have general: "extractIntent toLowerCase input = firstGroupLabel intentGroups (toLowerCase input)"
    by (simp add: extractIntent_def intentGroups_def Let_def)
  have labels: "map snd intentGroups =
       map str [''Create/Add new functionality'', ''Modify existing functionality'',
                ''Fix bugs or errors'', ''Remove/Delete functionality'',
                ''Refactor/Improve code'', ''Add or modify tests'',
                ''Add or update documentation'']"
    by (simp add: intentGroups_def)
  have triggers: "map fst intentGroups =
       map (map str) [[''add'', ''create'', ''new''], [''modify'', ''change'', ''update''],
                      [''fix'', ''bug'', ''error''], [''remove'', ''delete'', ''clean''],
                      [''refactor'', ''improve'', ''optimize''], [''test'', ''testing''],
                      [''document'', ''comment'', ''readme'']]"
    by (simp add: intentGroups_def)
  have examples: "lowersASCII toLowerCase \<longrightarrow>
        extractIntent toLowerCase (str ''Add a new login page'') = str ''Create/Add new functionality''
      \<and> extractIntent toLowerCase (str ''Fix the crash on add'') = str ''Create/Add new functionality''
      \<and> extractIntent toLowerCase (str ''FIX THE CRASH'') = str ''Fix bugs or errors''
      \<and> extractIntent toLowerCase (str ''Update the README'') = str ''Modify existing functionality''
      \<and> extractIntent toLowerCase (str ''Remove dead code'') = str ''Remove/Delete functionality''
      \<and> extractIntent toLowerCase (str ''Refactor the parser'') = str ''Refactor/Improve code''
      \<and> extractIntent toLowerCase (str ''Write unit tests'') = str ''Add or modify tests''
      \<and> extractIntent toLowerCase (str ''Document the API'') = str ''Add or update documentation''
      \<and> extractIntent toLowerCase (str ''Hello World'') = str ''General code changes''"
  proof
    assume L: "lowersASCII toLowerCase"
    note low = lowersASCII_apply [OF L]
    have login: "extractIntent toLowerCase (str ''Add a new login page'') = str ''Create/Add new functionality''"
      by (simp add: extractIntent_def Let_def str_def low asciiLower_def)
    have crash: "extractIntent toLowerCase (str ''Fix the crash on add'') = str ''Create/Add new functionality''"
      by (simp add: extractIntent_def Let_def str_def low asciiLower_def)
    have capitals: "extractIntent toLowerCase (str ''FIX THE CRASH'') = str ''Fix bugs or errors''"
      by (simp add: extractIntent_def Let_def str_def low asciiLower_def)
    have update: "extractIntent toLowerCase (str ''Update the README'') = str ''Modify existing functionality''"
      by (simp add: extractIntent_def Let_def str_def low asciiLower_def)
    have remove: "extractIntent toLowerCase (str ''Remove dead code'') = str ''Remove/Delete functionality''"
      by (simp add: extractIntent_def Let_def str_def low asciiLower_def)
    have refactor: "extractIntent toLowerCase (str ''Refactor the parser'') = str ''Refactor/Improve code''"
      by (simp add: extractIntent_def Let_def str_def low asciiLower_def)
    have tests: "extractIntent toLowerCase (str ''Write unit tests'') = str ''Add or modify tests''"
      by (simp add: extractIntent_def Let_def str_def low asciiLower_def)
    have document: "extractIntent toLowerCase (str ''Document the API'') = str ''Add or update documentation''"
      by (simp add: extractIntent_def Let_def str_def low asciiLower_def)
    have hello: "extractIntent toLowerCase (str ''Hello World'') = str ''General code changes''"
      by (simp add: extractIntent_def Let_def str_def low asciiLower_def)
    show "extractIntent toLowerCase (str ''Add a new login page'') = str ''Create/Add new functionality''
      \<and> extractIntent toLowerCase (str ''Fix the crash on add'') = str ''Create/Add new functionality''
      \<and> extractIntent toLowerCase (str ''FIX THE CRASH'') = str ''Fix bugs or errors''
      \<and> extractIntent toLowerCase (str ''Update the README'') = str ''Modify existing functionality''
      \<and> extractIntent toLowerCase (str ''Remove dead code'') = str ''Remove/Delete functionality''
      \<and> extractIntent toLowerCase (str ''Refactor the parser'') = str ''Refactor/Improve code''
      \<and> extractIntent toLowerCase (str ''Write unit tests'') = str ''Add or modify tests''
      \<and> extractIntent toLowerCase (str ''Document the API'') = str ''Add or update documentation''
      \<and> extractIntent toLowerCase (str ''Hello World'') = str ''General code changes''"
      by (intro conjI) (fact login crash capitals update remove refactor tests document hello)+
  qed
  show ?thesis
    by (intro conjI) (fact general labels triggers examples)+
qed

theorem extractIntent_first_group_witness:
  "lowersASCII asciiLowerCase
   \<and> extractIntent asciiLowerCase (str ''FIX THE CRASH'') = str ''Fix bugs or errors''
   \<and> extractIntent asciiLowerCase (str ''Fix the crash on add'') = str ''Create/Add new functionality''
   \<and> extractIntent asciiLowerCase (str ''Hello World'') = str ''General code changes''"
proof -
  note inst = extractIntent_first_group [of asciiLowerCase "[]", THEN conjunct2, THEN conjunct2,
      THEN conjunct2, THEN mp, OF lowersASCII_asciiLowerCase]
  from inst have capitals: "extractIntent asciiLowerCase (str ''FIX THE CRASH'') = str ''Fix bugs or errors''"
    by (elim conjE)
  from inst have crash: "extractIntent asciiLowerCase (str ''Fix the crash on add'') = str ''Create/Add new functionality''"
    by (elim conjE)
  from inst have hello: "extractIntent asciiLowerCase (str ''Hello World'') = str ''General code changes''"
    by (elim conjE)
  show ?thesis
    by (intro conjI) (fact lowersASCII_asciiLowerCase capitals crash hello)+
qed

subsection \<open>C7: the keywords are at most ten, long enough, and no stop words\<close>

text \<open>
  Claim C7. For every input, and whatever \<open>toLowerCase\<close> does beyond ASCII,
  \<open>extractKeywords\<close> returns at most 10 tokens, each longer than 2 code units and none a
  stop word; they are the first ten survivors, in their order, of the tokens of the
  lowercased input. The tokens come from cutting the lowercased input at every maximal
  run of white space, commas, periods and hyphens: a text without separators is its own
  only token; a text that starts with a separator-free word, goes on with a run of
  separators and then with a rest that does not start with a separator has that word as
  its first token, followed by the tokens of the rest; and no token holds a separator.
  With a \<open>toLowerCase\<close> that lowers ASCII as the built-in does,
  "Fix THE Auth-Service, now.(TAB)Please do it" gives \<open>fix\<close>, \<open>auth\<close>, \<open>service\<close>,
  \<open>now\<close>, \<open>please\<close>, and of twelve surviving words the first ten are kept.
\<close>

theorem extractKeywords_bounds:
  "length (extractKeywords toLowerCase input) \<le> 10
   \<and> (\<forall>k\<in>set (extractKeywords toLowerCase input). 2 < length k \<and> k \<notin> set commonWords)
   \<and> extractKeywords toLowerCase input =
       take 10 (filter (\<lambda>w. 2 < length w \<and> w \<notin> set commonWords)
                  (splitSeparators (toLowerCase input)))
   \<and> ((\<forall>c\<in>set t. \<not> isSeparator c) \<longrightarrow> splitSeparators t = [t])
   \<and> ((\<forall>c\<in>set t. \<not> isSeparator c) \<and> r \<noteq> [] \<and> (\<forall>c\<in>set r. isSeparator c)
        \<and> \<not> beginsWithSeparator u \<longrightarrow>
        splitSeparators (t @ r @ u) = t # splitSeparators u)
   \<and> (\<forall>w\<in>set (splitSeparators s). \<forall>c\<in>set w. \<not> isSeparator c)
   \<and> (\<forall>c. isSeparator c \<longleftrightarrow> isWhiteSpace c \<or> c = 44 \<or> c = 46 \<or> c = 45)
   \<and> (lowersASCII toLowerCase \<longrightarrow>
        extractKeywords toLowerCase (str ''Fix THE Auth-Service, now.'' @ [9] @ str ''Please do it'')
          = map str [''fix'', ''auth'', ''service'', ''now'', ''please'']
      \<and> extractKeywords toLowerCase
            (str ''one two six ten aaa bbb ccc ddd eee fff ggg hhh'')
          = map str [''one'', ''two'', ''six'', ''ten'', ''aaa'', ''bbb'', ''ccc'', ''ddd'',
                     ''eee'', ''fff''])"
proof -
  have len: "length (extractKeywords toLowerCase input) \<le> 10"
    by (simp add: extractKeywords_def)
  have kept: "\<forall>k\<in>set (extractKeywords toLowerCase input). 2 < length k \<and> k \<notin> set commonWords"
  proof
    fix k assume "k \<in> set (extractKeywords toLowerCase input)"
    then have "k \<in> set (filter keepWord (splitSeparators (toLowerCase input)))"
      unfolding extractKeywords_def by (rule in_set_takeD)
    then show "2 < length k \<and> k \<notin> set commonWords"
      by (simp add: keepWord_def)
  qed
  have first: "extractKeywords toLowerCase input =
       take 10 (filter (\<lambda>w. 2 < length w \<and> w \<notin> set commonWords)
                  (splitSeparators (toLowerCase input)))"
    by (simp add: extractKeywords_def keepWord_def [abs_def])
  have word: "(\<forall>c\<in>set t. \<not> isSeparator c) \<longrightarrow> splitSeparators t = [t]"
    by (rule impI) (rule splitSeparators_word)
  have cut: "(\<forall>c\<in>set t. \<not> isSeparator c) \<and> r \<noteq> [] \<and> (\<forall>c\<in>set r. isSeparator c)
        \<and> \<not> beginsWithSeparator u \<longrightarrow>
        splitSeparators (t @ r @ u) = t # splitSeparators u"
  proof
    assume a: "(\<forall>c\<in>set t. \<not> isSeparator c) \<and> r \<noteq> [] \<and> (\<forall>c\<in>set r. isSeparator c)
        \<and> \<not> beginsWithSeparator u"
    show "splitSeparators (t @ r @ u) = t # splitSeparators u"
      by (rule splitSeparators_cut) (use a in blast)+
  qed
  have sepfree: "\<forall>w\<in>set (splitSeparators s). \<forall>c\<in>set w. \<not> isSeparator c"
    unfolding splitSeparators_def by (rule splitRuns_tokens_sepfree) simp
  have seps: "\<forall>c. isSeparator c \<longleftrightarrow> isWhiteSpace c \<or> c = 44 \<or> c = 46 \<or> c = 45"
    by (simp add: isSeparator_def)
  have examples: "lowersASCII toLowerCase \<longrightarrow>
        extractKeywords toLowerCase (str ''Fix THE Auth-Service, now.'' @ [9] @ str ''Please do it'')
          = map str [''fix'', ''auth'', ''service'', ''now'', ''please'']
      \<and> extractKeywords toLowerCase
            (str ''one two six ten aaa bbb ccc ddd eee fff ggg hhh'')
          = map str [''one'', ''two'', ''six'', ''ten'', ''aaa'', ''bbb'', ''ccc'', ''ddd'',
                     ''eee'', ''fff'']"
  proof
    assume L: "lowersASCII toLowerCase"
    note low = lowersASCII_apply [OF L]
    have mixed: "extractKeywords toLowerCase (str ''Fix THE Auth-Service, now.'' @ [9] @ str ''Please do it'')
          = map str [''fix'', ''auth'', ''service'', ''now'', ''please'']"
      by (simp add: extractKeywords_def splitSeparators_def keepWord_def commonWords_def
          low asciiLower_def isSeparator_def isWhiteSpace_def str_def)
    have twelve: "extractKeywords toLowerCase
            (str ''one two six ten aaa bbb ccc ddd eee fff ggg hhh'')
          = map str [''one'', ''two'', ''six'', ''ten'', ''aaa'', ''bbb'', ''ccc'', ''ddd'',
                     ''eee'', ''fff'']"
      by (simp add: extractKeywords_def splitSeparators_def keepWord_def commonWords_def
          low asciiLower_def isSeparator_def isWhiteSpace_def str_def)
    from mixed twelve show "extractKeywords toLowerCase (str ''Fix THE Auth-Service, now.'' @ [9] @ str ''Please do it'')
          = map str [''fix'', ''auth'', ''service'', ''now'', ''please'']
      \<and> extractKeywords toLowerCase
            (str ''one two six ten aaa bbb ccc ddd eee fff ggg hhh'')
          = map str [''one'', ''two'', ''six'', ''ten'', ''aaa'', ''bbb'', ''ccc'', ''ddd'',
                     ''eee'', ''fff'']"
      by (intro conjI)
  qed
  show ?thesis
    by (intro conjI) (fact len kept first word cut sepfree seps examples)+
qed

theorem extractKeywords_bounds_witness:
  "lowersASCII asciiLowerCase
   \<and> extractKeywords asciiLowerCase (str ''Fix THE Auth-Service, now.'' @ [9] @ str ''Please do it'')
       = map str [''fix'', ''auth'', ''service'', ''now'', ''please'']
   \<and> str ''fix'' \<in> set (extractKeywords asciiLowerCase
         (str ''Fix THE Auth-Service, now.'' @ [9] @ str ''Please do it''))
   \<and> 2 < length (str ''fix'') \<and> str ''fix'' \<notin> set commonWords
   \<and> splitSeparators (str ''auth'' @ str '', -.'' @ str ''service'') = [str ''auth'', str ''service'']"
proof -
  let ?mixed = "str ''Fix THE Auth-Service, now.'' @ [9] @ str ''Please do it''"
  note inst = extractKeywords_bounds [of asciiLowerCase ?mixed "str ''auth''" "str '', -.''"
      "str ''service''" "[]"]
  note word = extractKeywords_bounds [of asciiLowerCase ?mixed "str ''service''" "[]" "[]" "[]",
      THEN conjunct2, THEN conjunct2, THEN conjunct2, THEN conjunct1]
  from inst have examples: "lowersASCII asciiLowerCase \<longrightarrow>
        extractKeywords asciiLowerCase ?mixed = map str [''fix'', ''auth'', ''service'', ''now'', ''please'']
      \<and> extractKeywords asciiLowerCase (str ''one two six ten aaa bbb ccc ddd eee fff ggg hhh'')
          = map str [''one'', ''two'', ''six'', ''ten'', ''aaa'', ''bbb'', ''ccc'', ''ddd'',
                     ''eee'', ''fff'']"
    by (elim conjE)
  with lowersASCII_asciiLowerCase
  have mixed: "extractKeywords asciiLowerCase ?mixed = map str [''fix'', ''auth'', ''service'', ''now'', ''please'']"
    by (elim impE conjE) assumption
  then have mem: "str ''fix'' \<in> set (extractKeywords asciiLowerCase ?mixed)"
    by simp
  from inst have "\<forall>k\<in>set (extractKeywords asciiLowerCase ?mixed). 2 < length k \<and> k \<notin> set commonWords"
    by (elim conjE)
  with mem have long: "2 < length (str ''fix'')" and nostop: "str ''fix'' \<notin> set commonWords"
    by blast+
  have a: "\<forall>c\<in>set (str ''auth''). \<not> isSeparator c"
    by (simp add: str_def isSeparator_def isWhiteSpace_def)
  have b: "str '', -.'' \<noteq> []" "\<forall>c\<in>set (str '', -.''). isSeparator c"
    by (simp_all add: str_def isSeparator_def isWhiteSpace_def)
  have c: "\<not> beginsWithSeparator (str ''service'')" "\<forall>c\<in>set (str ''service''). \<not> isSeparator c"
    by (simp_all add: str_def beginsWithSeparator_def isSeparator_def isWhiteSpace_def)
  from inst have "(\<forall>c\<in>set (str ''auth''). \<not> isSeparator c) \<and> str '', -.'' \<noteq> []
        \<and> (\<forall>c\<in>set (str '', -.''). isSeparator c) \<and> \<not> beginsWithSeparator (str ''service'') \<longrightarrow>
        splitSeparators (str ''auth'' @ str '', -.'' @ str ''service'')
          = str ''auth'' # splitSeparators (str ''service'')"
    by (elim conjE)
  with a b c(1) have "splitSeparators (str ''auth'' @ str '', -.'' @ str ''service'')
          = str ''auth'' # splitSeparators (str ''service'')"
    by blast
  moreover from word c(2) have "splitSeparators (str ''service'') = [str ''service'']"
    by blast
  ultimately have split: "splitSeparators (str ''auth'' @ str '', -.'' @ str ''service'')
      = [str ''auth'', str ''service'']"
    by simp
  show ?thesis
    by (intro conjI) (fact lowersASCII_asciiLowerCase mixed mem long nostop split)+
qed

subsection \<open>C6: the shortlist of relevant files\<close>

text \<open>
  Claim C6, as the code has it. For every request, referenced files and file list, and
  whatever \<open>toLowerCase\<close> does beyond ASCII, the output of \<open>filterRelevantFiles\<close> has at
  most 20 entries; the referenced files, cut to 20, are its prefix in their order; it is
  the first 20 entries of the referenced files followed by the files of \<open>allFiles\<close>, in
  their order, that are not referenced and whose lowercased path contains a (lowercased)
  keyword of the request; so each entry that is not a referenced file is a member of
  \<open>allFiles\<close> with such a keyword. The output has no duplicates when neither
  \<open>referencedFiles\<close> nor \<open>allFiles\<close> has (\<open>filterRelevantFiles_duplicates\<close> below: a file
  referenced twice stays twice). With a \<open>toLowerCase\<close> that lowers ASCII as the built-in
  does, the request "Fix auth" with \<open>README.md\<close> referenced shortlists \<open>README.md\<close> and
  then \<open>src/Auth.ts\<close>, matched without regard to case.
\<close>

theorem filterRelevantFiles_shortlist:
  "length (filterRelevantFiles toLowerCase userInput referencedFiles allFiles) \<le> 20
   \<and> prefix (take 20 referencedFiles)
        (filterRelevantFiles toLowerCase userInput referencedFiles allFiles)
   \<and> filterRelevantFiles toLowerCase userInput referencedFiles allFiles =
       take 20 (referencedFiles @
         filter (\<lambda>f. f \<notin> set referencedFiles \<and>
                    (\<exists>k\<in>set (extractKeywords toLowerCase userInput).
                       includesStr (toLowerCase f) (toLowerCase k))) allFiles)
   \<and> (\<forall>f\<in>set (filterRelevantFiles toLowerCase userInput referencedFiles allFiles).
         f \<notin> set referencedFiles \<longrightarrow>
         f \<in> set allFiles \<and>
         (\<exists>k\<in>set (extractKeywords toLowerCase userInput).
            sublist (toLowerCase k) (toLowerCase f)))
   \<and> (distinct referencedFiles \<and> distinct allFiles \<longrightarrow>
        distinct (filterRelevantFiles toLowerCase userInput referencedFiles allFiles))
   \<and> (lowersASCII toLowerCase \<longrightarrow>
        filterRelevantFiles toLowerCase (str ''Fix auth'') [str ''README.md'']
          [str ''README.md'', str ''src/Auth.ts'', str ''src/index.ts'']
        = [str ''README.md'', str ''src/Auth.ts''])"
proof -
  let ?hit = "\<lambda>f. f \<notin> set referencedFiles \<and>
                 list_ex (\<lambda>k. includesStr (toLowerCase f) (toLowerCase k))
                   (extractKeywords toLowerCase userInput)"
  let ?out = "filterRelevantFiles toLowerCase userInput referencedFiles allFiles"
  have eq: "?out = take 20 (referencedFiles @ filter ?hit allFiles)"
    by (rule filterRelevantFiles_eq)
  have len: "length ?out \<le> 20"
    by (simp add: eq)
  have pre: "prefix (take 20 referencedFiles) ?out"
    unfolding eq by (simp add: prefix_def)
  have shape: "?out = take 20 (referencedFiles @
         filter (\<lambda>f. f \<notin> set referencedFiles \<and>
                    (\<exists>k\<in>set (extractKeywords toLowerCase userInput).
                       includesStr (toLowerCase f) (toLowerCase k))) allFiles)"
    by (simp add: eq list_ex_iff)
  have members: "\<forall>f\<in>set ?out. f \<notin> set referencedFiles \<longrightarrow>
         f \<in> set allFiles \<and>
         (\<exists>k\<in>set (extractKeywords toLowerCase userInput).
            sublist (toLowerCase k) (toLowerCase f))"
  proof (intro ballI impI)
    fix f assume "f \<in> set ?out" and nref: "f \<notin> set referencedFiles"
    then have "f \<in> set (referencedFiles @ filter ?hit allFiles)"
      unfolding eq by (blast dest: in_set_takeD)
    with nref have "f \<in> set (filter ?hit allFiles)" by simp
    then show "f \<in> set allFiles \<and>
         (\<exists>k\<in>set (extractKeywords toLowerCase userInput).
            sublist (toLowerCase k) (toLowerCase f))"
      by (auto simp: list_ex_iff includesStr_iff_sublist)
  qed
  have dist: "distinct referencedFiles \<and> distinct allFiles \<longrightarrow> distinct ?out"
  proof
    assume d: "distinct referencedFiles \<and> distinct allFiles"
    then have "distinct (referencedFiles @ filter ?hit allFiles)"
      by auto
    then show "distinct ?out"
      unfolding eq by (rule distinct_take)
  qed
  have example: "lowersASCII toLowerCase \<longrightarrow>
        filterRelevantFiles toLowerCase (str ''Fix auth'') [str ''README.md'']
          [str ''README.md'', str ''src/Auth.ts'', str ''src/index.ts'']
        = [str ''README.md'', str ''src/Auth.ts'']"
  proof
    assume L: "lowersASCII toLowerCase"
    note low = lowersASCII_apply [OF L]
    show "filterRelevantFiles toLowerCase (str ''Fix auth'') [str ''README.md'']
          [str ''README.md'', str ''src/Auth.ts'', str ''src/index.ts'']
        = [str ''README.md'', str ''src/Auth.ts'']"
      by (simp add: filterRelevantFiles_def Let_def extractKeywords_def splitSeparators_def
          keepWord_def commonWords_def low asciiLower_def isSeparator_def isWhiteSpace_def str_def)
  qed
  show ?thesis
    by (intro conjI) (fact len pre shape members dist example)+
qed

theorem filterRelevantFiles_shortlist_witness:
  "lowersASCII asciiLowerCase
   \<and> filterRelevantFiles asciiLowerCase (str ''Fix auth'') [str ''README.md'']
        [str ''README.md'', str ''src/Auth.ts'', str ''src/index.ts'']
       = [str ''README.md'', str ''src/Auth.ts'']
   \<and> str ''src/Auth.ts'' \<notin> set [str ''README.md'']
   \<and> str ''src/Auth.ts'' \<in> set [str ''README.md'', str ''src/Auth.ts'', str ''src/index.ts'']
   \<and> distinct [str ''README.md''] \<and> distinct [str ''README.md'', str ''src/Auth.ts'', str ''src/index.ts'']
   \<and> distinct (filterRelevantFiles asciiLowerCase (str ''Fix auth'') [str ''README.md'']
        [str ''README.md'', str ''src/Auth.ts'', str ''src/index.ts''])"
proof -
  let ?refs = "[str ''README.md'']"
  let ?all = "[str ''README.md'', str ''src/Auth.ts'', str ''src/index.ts'']"
  note inst = filterRelevantFiles_shortlist [of asciiLowerCase "str ''Fix auth''" ?refs ?all]
  from inst have "lowersASCII asciiLowerCase \<longrightarrow>
      filterRelevantFiles asciiLowerCase (str ''Fix auth'') ?refs ?all = [str ''README.md'', str ''src/Auth.ts'']"
    by (elim conjE)
  with lowersASCII_asciiLowerCase
  have run: "filterRelevantFiles asciiLowerCase (str ''Fix auth'') ?refs ?all = [str ''README.md'', str ''src/Auth.ts'']"
    by (rule rev_mp)
  have nref: "str ''src/Auth.ts'' \<notin> set ?refs"
    by (simp add: str_def)
  have out: "str ''src/Auth.ts'' \<in> set (filterRelevantFiles asciiLowerCase (str ''Fix auth'') ?refs ?all)"
    by (simp add: run)
  from inst have "\<forall>f\<in>set (filterRelevantFiles asciiLowerCase (str ''Fix auth'') ?refs ?all).
         f \<notin> set ?refs \<longrightarrow> f \<in> set ?all \<and>
         (\<exists>k\<in>set (extractKeywords asciiLowerCase (str ''Fix auth'')).
            sublist (asciiLowerCase k) (asciiLowerCase f))"
    by (elim conjE)
  with out nref have mem: "str ''src/Auth.ts'' \<in> set ?all"
    by blast
  have d1: "distinct ?refs" by simp
  have d2: "distinct ?all" by (simp add: str_def)
  from inst have "distinct ?refs \<and> distinct ?all \<longrightarrow>
      distinct (filterRelevantFiles asciiLowerCase (str ''Fix auth'') ?refs ?all)"
    by (elim conjE)
  with d1 d2 have d3: "distinct (filterRelevantFiles asciiLowerCase (str ''Fix auth'') ?refs ?all)"
    by (elim impE conjE) (intro conjI)
  show ?thesis
    by (intro conjI) (fact lowersASCII_asciiLowerCase run nref mem d1 d2 d3)+
qed

theorem filterRelevantFiles_duplicates:
  "\<not> distinct (filterRelevantFiles asciiLowerCase (str ''compare'')
        [str ''a.ts'', str ''a.ts''] [str ''a.ts''])"
  by (simp add: filterRelevantFiles_def Let_def str_def)

section \<open>Properties of the plan executor\<close>

lemma runSteps_invariant:
  "runSteps p rootDir c ss results st = (res, st') \<Longrightarrow>
   totalSteps res = totalSteps results \<and>
   (\<exists>n fs. successCount res = successCount results + n \<and>
           failedSteps res = failedSteps results @ fs \<and>
           n + length fs \<le> length ss \<and> subseq fs (map step ss))"
proof (induction ss arbitrary: results st)
  case Nil
  then show ?case by auto
next
  case (Cons s rest)
  obtain result st1 where ex: "executeStep p s rootDir st = (result, st1)"
    by (cases "executeStep p s rootDir st")
  show ?case
  proof (cases "success result")
    case True
    with Cons.prems ex
    have run: "runSteps p rootDir c rest (results\<lparr>successCount := successCount results + 1\<rparr>) st1 = (res, st')"
      by simp
    from Cons.IH [OF run] obtain n fs where
      "totalSteps res = totalSteps results"
      "successCount res = successCount results + 1 + n"
      "failedSteps res = failedSteps results @ fs"
      "n + length fs \<le> length rest" "subseq fs (map step rest)"
      by auto
    then show ?thesis
      by (intro conjI exI [of _ "Suc n"] exI [of _ fs]) (auto intro: subseq_Cons')
  next
    case False
    note failed = False
    show ?thesis
    proof (cases c)
      case False
      with Cons.prems ex failed
      have "res = results\<lparr>failedSteps := failedSteps results @ [step s]\<rparr>"
        by simp
      then show ?thesis
        by (intro conjI exI [of _ 0] exI [of _ "[step s]"]) auto
    next
      case True
      with Cons.prems ex failed
      have run: "runSteps p rootDir c rest (results\<lparr>failedSteps := failedSteps results @ [step s]\<rparr>) st1 = (res, st')"
        by simp
      from Cons.IH [OF run] obtain n fs where
        "totalSteps res = totalSteps results"
        "successCount res = successCount results + n"
        "failedSteps res = failedSteps results @ [step s] @ fs"
        "n + length fs \<le> length rest" "subseq fs (map step rest)"
        by auto
      then show ?thesis
        by (intro conjI exI [of _ n] exI [of _ "step s # fs"]) auto
    qed
  qed
qed

lemmas executor_defs =
  executeStep_def createFile_def modifyFile_def callOpenRouter_def callFetch_def
  callExistsSync_def callReadFileSync_def callWriteFileSync_def callMkdirSync_def
  callGetFileTreeString_def readResponse_def rethrow_def candidateText_def

lemmas memory_defs =
  memoryPlatform_def textResponse_def emptyMemory_def planStep_def planOf_def

subsection \<open>C4: a step without files succeeds and touches nothing\<close>

text \<open>
  Claim C4. For every step whose \<open>files\<close> is absent or empty, on every platform and in
  every state, \<open>executeStep\<close> returns success with the message
  \<open>No files to modify (documentation or verification step)\<close> and the state it was
  given: the world is unchanged and no platform call is added to the trace, so no file
  is created or modified and the LLM client is not called.
\<close>

theorem executeStep_no_files:
  "files s = None \<or> files s = Some [] \<Longrightarrow>
   executeStep p s rootDir st =
     (\<lparr>success = True, message = str ''No files to modify (documentation or verification step)''\<rparr>, st)"
  by (simp add: executeStep_def)

theorem executeStep_no_files_witness:
  "executeStep (memoryPlatform 0 (textResponse (str ''hello''))) (planStep 1 ''verify'' (Some [])) (str ''/r'') emptyMemory =
     (\<lparr>success = True, message = str ''No files to modify (documentation or verification step)''\<rparr>,
      emptyMemory)
   \<and> executeStep (memoryPlatform 0 (textResponse (str ''hello''))) (planStep 1 ''verify'' None) (str ''/r'') emptyMemory =
     (\<lparr>success = True, message = str ''No files to modify (documentation or verification step)''\<rparr>,
      emptyMemory)"
proof -
  have some: "files (planStep 1 ''verify'' (Some [])) = None \<or> files (planStep 1 ''verify'' (Some [])) = Some []"
    by (simp add: planStep_def)
  have none: "files (planStep 1 ''verify'' None) = None \<or> files (planStep 1 ''verify'' None) = Some []"
    by (simp add: planStep_def)
  show ?thesis
    by (intro conjI) (rule executeStep_no_files [OF some], rule executeStep_no_files [OF none])
qed

subsection \<open>C1: a failing second step of three\<close>

text \<open>
  Claim C1. Let the plan have three steps, the second with number 2, and let the first
  step succeed and the second fail. With \<open>continueOnError = false\<close>, \<open>executePlan\<close>
  returns \<open>{totalSteps: 3, successCount: 1, failedSteps: [2]}\<close> in the very state the
  second step left: the world and the trace of platform calls are those after step 2,
  so nothing of step 3 is attempted, neither a file operation nor an LLM call. With
  \<open>continueOnError = true\<close> and a third step that succeeds, it returns
  \<open>{totalSteps: 3, successCount: 2, failedSteps: [2]}\<close> in the state the third step left.
\<close>

theorem executePlan_stops_at_failure:
  assumes "steps plan = [s1, s2, s3]" and "step s2 = 2"
    and "executeStep p s1 rootDir st = (r1, st1)" and "success r1"
    and "executeStep p s2 rootDir st1 = (r2, st2)" and "\<not> success r2"
  shows "executePlan p plan rootDir False st =
           (\<lparr>totalSteps = 3, successCount = 1, failedSteps = [2]\<rparr>, st2)
         \<and> (\<forall>r3 st3. executeStep p s3 rootDir st2 = (r3, st3) \<and> success r3 \<longrightarrow>
               executePlan p plan rootDir True st =
                 (\<lparr>totalSteps = 3, successCount = 2, failedSteps = [2]\<rparr>, st3))"
  using assms by (simp add: executePlan_def)

theorem executePlan_stops_at_failure_witness:
  "fst (executePlan (memoryPlatform 0 (textResponse (str ''hello'')))
          (planOf [planStep 1 ''check'' None, planStep 2 ''write y'' (Some [str ''y.ts'']),
                   planStep 3 ''write z'' (Some [str ''z.ts''])])
          (str ''/r'') False emptyMemory)
     = \<lparr>totalSteps = 3, successCount = 1, failedSteps = [2]\<rparr>
   \<and> world (snd (executePlan (memoryPlatform 0 (textResponse (str ''hello'')))
          (planOf [planStep 1 ''check'' None, planStep 2 ''write y'' (Some [str ''y.ts'']),
                   planStep 3 ''write z'' (Some [str ''z.ts''])])
          (str ''/r'') False emptyMemory))
     = \<lparr>stored = [], calls = 1\<rparr>
   \<and> fst (executePlan (memoryPlatform 0 (textResponse (str ''hello'')))
          (planOf [planStep 1 ''check'' None, planStep 2 ''write y'' (Some [str ''y.ts'']),
                   planStep 3 ''write z'' (Some [str ''z.ts''])])
          (str ''/r'') True emptyMemory)
     = \<lparr>totalSteps = 3, successCount = 2, failedSteps = [2]\<rparr>
   \<and> world (snd (executePlan (memoryPlatform 0 (textResponse (str ''hello'')))
          (planOf [planStep 1 ''check'' None, planStep 2 ''write y'' (Some [str ''y.ts'']),
                   planStep 3 ''write z'' (Some [str ''z.ts''])])
          (str ''/r'') True emptyMemory))
     = \<lparr>stored = [(str ''/r/z.ts'', str ''hello'')], calls = 2\<rparr>"
proof -
  let ?P = "memoryPlatform 0 (textResponse (str ''hello''))"
  let ?s1 = "planStep 1 ''check'' None"
  let ?s2 = "planStep 2 ''write y'' (Some [str ''y.ts''])"
  let ?s3 = "planStep 3 ''write z'' (Some [str ''z.ts''])"
  let ?plan = "planOf [?s1, ?s2, ?s3]"
  let ?t2 = "[Exists (str ''/r/y.ts''), FileTree (str ''/r''),
              Fetch (generateContentUrl (str ''gemini-2.5-pro'') (str ''key''))
                (requestBodyJSON (createFileSystemPrompt @ [10, 10] @
                   createFileUserPrompt (str ''/r/y.ts'') ?s2 (str ''tree'')))]"
  let ?st2 = "\<lparr>world = \<lparr>stored = [], calls = 1\<rparr>, trace = ?t2\<rparr>"
  let ?t3 = "?t2 @ [Exists (str ''/r/z.ts''), FileTree (str ''/r''),
              Fetch (generateContentUrl (str ''gemini-2.5-pro'') (str ''key''))
                (requestBodyJSON (createFileSystemPrompt @ [10, 10] @
                   createFileUserPrompt (str ''/r/z.ts'') ?s3 (str ''tree''))),
              Exists (str ''/r''), Mkdir (str ''/r''), WriteFile (str ''/r/z.ts'') (str ''hello'')]"
  let ?st3 = "\<lparr>world = \<lparr>stored = [(str ''/r/z.ts'', str ''hello'')], calls = 2\<rparr>, trace = ?t3\<rparr>"
  have three: "steps ?plan = [?s1, ?s2, ?s3]"
    by (simp add: planOf_def)
  have two: "step ?s2 = 2"
    by (simp add: planStep_def)
  have e1: "executeStep ?P ?s1 (str ''/r'') emptyMemory =
      (\<lparr>success = True, message = str ''No files to modify (documentation or verification step)''\<rparr>,
       emptyMemory)"
    by (simp add: executeStep_def planStep_def)
  have ok1: "success \<lparr>success = True, message = str ''No files to modify (documentation or verification step)''\<rparr>"
    by simp
  have e2: "executeStep ?P ?s2 (str ''/r'') emptyMemory =
      (\<lparr>success = False, message = str ''Failed to call Gemini API: fetch failed''\<rparr>, ?st2)"
    by (simp add: executor_defs memory_defs Let_def str_def)
  have ko2: "\<not> success \<lparr>success = False, message = str ''Failed to call Gemini API: fetch failed''\<rparr>"
    by simp
  have e3: "executeStep ?P ?s3 (str ''/r'') ?st2 =
      (\<lparr>success = True, message = str ''Successfully completed: write z''\<rparr>, ?st3)"
    by (simp add: executor_defs memory_defs cleanContent_def trim_def fence_def isWhiteSpace_def
        Let_def str_def)
  have ok3: "success \<lparr>success = True, message = str ''Successfully completed: write z''\<rparr>"
    by simp
  note both = executePlan_stops_at_failure [OF three two e1 ok1 e2 ko2]
  from both have stop: "executePlan ?P ?plan (str ''/r'') False emptyMemory =
      (\<lparr>totalSteps = 3, successCount = 1, failedSteps = [2]\<rparr>, ?st2)"
    by (rule conjunct1)
  from both e3 ok3 have go: "executePlan ?P ?plan (str ''/r'') True emptyMemory =
      (\<lparr>totalSteps = 3, successCount = 2, failedSteps = [2]\<rparr>, ?st3)"
    by blast
  show ?thesis
    by (simp add: stop go)
qed

subsection \<open>C3: the invariants of the result\<close>

text \<open>
  Claim C3. For every plan, both values of \<open>continueOnError\<close>, every platform and every
  state, the result of \<open>executePlan\<close> satisfies
  \<open>successCount + len(failedSteps) \<le> totalSteps\<close>, with \<open>totalSteps\<close> the number of
  steps of the plan; \<open>failedSteps\<close> is a subsequence of the \<open>step\<close> fields of the plan's
  steps in plan order, so every entry is the \<open>step\<close> number of some step of the plan and
  not its position; and a plan without steps yields
  \<open>{totalSteps: 0, successCount: 0, failedSteps: []}\<close> and leaves the state as it was.
\<close>

theorem executePlan_result_invariant:
  "successCount (fst (executePlan p plan rootDir continueOnError st))
     + length (failedSteps (fst (executePlan p plan rootDir continueOnError st)))
     \<le> totalSteps (fst (executePlan p plan rootDir continueOnError st))
   \<and> totalSteps (fst (executePlan p plan rootDir continueOnError st)) = length (steps plan)
   \<and> subseq (failedSteps (fst (executePlan p plan rootDir continueOnError st))) (map step (steps plan))
   \<and> (\<forall>n\<in>set (failedSteps (fst (executePlan p plan rootDir continueOnError st))).
         \<exists>s\<in>set (steps plan). n = step s)
   \<and> (steps plan = [] \<longrightarrow>
        executePlan p plan rootDir continueOnError st =
          (\<lparr>totalSteps = 0, successCount = 0, failedSteps = []\<rparr>, st))"
proof -
  obtain res st' where run: "executePlan p plan rootDir continueOnError st = (res, st')"
    by (cases "executePlan p plan rootDir continueOnError st")
  from run have "runSteps p rootDir continueOnError (steps plan)
       \<lparr>totalSteps = length (steps plan), successCount = 0, failedSteps = []\<rparr> st = (res, st')"
    by (simp add: executePlan_def)
  from runSteps_invariant [OF this] obtain n fs where
    total: "totalSteps res = length (steps plan)" and
    succ: "successCount res = n" and failed: "failedSteps res = fs" and
    bound: "n + length fs \<le> length (steps plan)" and sub: "subseq fs (map step (steps plan))"
    by auto
  have mem: "\<forall>k\<in>set (failedSteps res). \<exists>s\<in>set (steps plan). k = step s"
  proof
    fix k assume "k \<in> set (failedSteps res)"
    with failed sub have "k \<in> set (map step (steps plan))"
      by (metis set_nths_subset subseq_conv_nths subsetD)
    then show "\<exists>s\<in>set (steps plan). k = step s" by auto
  qed
  have empty: "steps plan = [] \<longrightarrow>
        executePlan p plan rootDir continueOnError st =
          (\<lparr>totalSteps = 0, successCount = 0, failedSteps = []\<rparr>, st)"
    by (simp add: executePlan_def)
  from total succ failed bound sub mem empty show ?thesis
    by (simp add: run)
qed

theorem executePlan_result_invariant_witness:
  "fst (executePlan (memoryPlatform 0 (textResponse (str ''hello'')))
          (planOf [planStep 10 ''check'' None, planStep 20 ''write y'' (Some [str ''y.ts'']),
                   planStep 30 ''verify'' None])
          (str ''/r'') True emptyMemory)
     = \<lparr>totalSteps = 3, successCount = 2, failedSteps = [20]\<rparr>
   \<and> (\<exists>s\<in>set (steps (planOf [planStep 10 ''check'' None,
                   planStep 20 ''write y'' (Some [str ''y.ts'']), planStep 30 ''verify'' None])).
         20 = step s)
   \<and> steps (planOf []) = []
   \<and> executePlan (memoryPlatform 0 (textResponse (str ''hello''))) (planOf []) (str ''/r'') True emptyMemory
       = (\<lparr>totalSteps = 0, successCount = 0, failedSteps = []\<rparr>, emptyMemory)"
proof -
  let ?P = "memoryPlatform 0 (textResponse (str ''hello''))"
  let ?plan = "planOf [planStep 10 ''check'' None, planStep 20 ''write y'' (Some [str ''y.ts'']),
                   planStep 30 ''verify'' None]"
  have run: "fst (executePlan ?P ?plan (str ''/r'') True emptyMemory)
     = \<lparr>totalSteps = 3, successCount = 2, failedSteps = [20]\<rparr>"
    by (simp add: executePlan_def executor_defs memory_defs Let_def str_def)
  note inst = executePlan_result_invariant [of ?P ?plan "str ''/r''" True emptyMemory]
  from inst have "\<forall>n\<in>set (failedSteps (fst (executePlan ?P ?plan (str ''/r'') True emptyMemory))).
         \<exists>s\<in>set (steps ?plan). n = step s"
    by (elim conjE)
  then have mem: "\<exists>s\<in>set (steps ?plan). 20 = step s"
    by (simp add: run)
  have none: "steps (planOf []) = []"
    by (simp add: planOf_def)
  from executePlan_result_invariant [of ?P "planOf []" "str ''/r''" True emptyMemory] none
  have empty: "executePlan ?P (planOf []) (str ''/r'') True emptyMemory
       = (\<lparr>totalSteps = 0, successCount = 0, failedSteps = []\<rparr>, emptyMemory)"
    by (elim conjE impE)
  show ?thesis
    by (intro conjI) (fact run mem none empty)+
qed

section \<open>Properties of file creation and modification\<close>

lemma writesOf_append: "writesOf (xs @ ys) = writesOf xs @ writesOf ys"
  by (induction xs rule: writesOf.induct) auto

lemma dropWhile_no_leading: "\<not> beginsWithWhiteSpace (dropWhile isWhiteSpace xs)"
proof (cases "dropWhile isWhiteSpace xs")
  case Nil
  show ?thesis
    unfolding beginsWithWhiteSpace_def Nil by simp
next
  case (Cons c cs)
  then have "dropWhile isWhiteSpace xs \<noteq> []" and "hd (dropWhile isWhiteSpace xs) = c"
    by simp_all
  with hd_dropWhile [of isWhiteSpace xs] have "\<not> isWhiteSpace c"
    by simp
  then show ?thesis
    unfolding beginsWithWhiteSpace_def Cons by simp
qed

lemma trim_is_prefix:
  "trim s @ rev (takeWhile isWhiteSpace (rev (dropWhile isWhiteSpace s))) = dropWhile isWhiteSpace s"
proof -
  let ?t = "dropWhile isWhiteSpace s"
  have "trim s @ rev (takeWhile isWhiteSpace (rev ?t))
      = rev (takeWhile isWhiteSpace (rev ?t) @ dropWhile isWhiteSpace (rev ?t))"
    by (simp only: trim_def rev_append)
  also have "\<dots> = rev (rev ?t)"
    by (simp only: takeWhile_dropWhile_id)
  finally show ?thesis by simp
qed

lemma trim_no_leading: "\<not> beginsWithWhiteSpace (trim s)"
proof (cases "trim s")
  case Nil
  show ?thesis
    unfolding beginsWithWhiteSpace_def Nil by simp
next
  case (Cons c cs)
  with trim_is_prefix [of s] obtain r where "dropWhile isWhiteSpace s = c # cs @ r"
    by (metis append_Cons)
  with dropWhile_no_leading [of s] have "\<not> isWhiteSpace c"
    by (simp add: beginsWithWhiteSpace_def)
  then show ?thesis
    unfolding beginsWithWhiteSpace_def Cons by simp
qed

lemma trim_no_trailing: "\<not> endsWithWhiteSpace (trim s)"
proof -
  have "rev (trim s) = dropWhile isWhiteSpace (rev (dropWhile isWhiteSpace s))"
    by (simp add: trim_def)
  with dropWhile_no_leading [of "rev (dropWhile isWhiteSpace s)"] show ?thesis
    by (simp add: endsWithWhiteSpace_def)
qed

lemma callOpenRouter_writes:
  "writesOf (trace (snd (callOpenRouter p sys usr model st))) = writesOf (trace st)"
  by (simp add: callOpenRouter_def callFetch_def Let_def writesOf_append split: option.split prod.split)

lemma createFile_writes:
  "writesOf (trace (snd (createFile p filePath s rootDir st))) = writesOf (trace st)
   \<or> (\<exists>fileContext answer st2.
         getFileTreeString p rootDir (world st) = Inr fileContext \<and>
         callOpenRouter p createFileSystemPrompt (createFileUserPrompt filePath s fileContext)
           (str ''gemini-2.5-pro'') (st\<lparr>trace := trace st @ [FileTree rootDir]\<rparr>) = (Inr (JString answer), st2) \<and>
         writesOf (trace (snd (createFile p filePath s rootDir st)))
           = writesOf (trace st) @ [(filePath, cleanContent answer)])"
proof (cases "getFileTreeString p rootDir (world st)")
  case (Inl e)
  then show ?thesis
    by (simp add: createFile_def callGetFileTreeString_def writesOf_append)
next
  case (Inr fileContext)
  let ?st1 = "st\<lparr>trace := trace st @ [FileTree rootDir]\<rparr>"
  obtain answer st2 where call: "callOpenRouter p createFileSystemPrompt
      (createFileUserPrompt filePath s fileContext) (str ''gemini-2.5-pro'') ?st1 = (answer, st2)"
    by (cases "callOpenRouter p createFileSystemPrompt
      (createFileUserPrompt filePath s fileContext) (str ''gemini-2.5-pro'') ?st1")
  from callOpenRouter_writes [of p createFileSystemPrompt "createFileUserPrompt filePath s fileContext"
      "str ''gemini-2.5-pro''" ?st1] call
  have w2: "writesOf (trace st2) = writesOf (trace st)"
    by (simp add: writesOf_append)
  show ?thesis
  proof (cases answer)
    case (Inl e)
    with Inr call w2 show ?thesis
      by (simp add: createFile_def callGetFileTreeString_def)
  next
    case ans: (Inr v)
    show ?thesis
    proof (cases "\<exists>c. v = JString c")
      case False
      with Inr call w2 ans show ?thesis
        by (cases v) (simp_all add: createFile_def callGetFileTreeString_def)
    next
      case True
      then obtain c where v: "v = JString c" by blast
      have "writesOf (trace (snd (createFile p filePath s rootDir st))) = writesOf (trace st)
        \<or> writesOf (trace (snd (createFile p filePath s rootDir st))) = writesOf (trace st) @ [(filePath, cleanContent c)]"
        using Inr call w2 ans v
        by (simp add: createFile_def callGetFileTreeString_def callExistsSync_def callMkdirSync_def
            callWriteFileSync_def Let_def writesOf_append split: prod.split option.split)
      with Inr call ans v show ?thesis
        by auto
    qed
  qed
qed

lemma modifyFile_writes:
  "writesOf (trace (snd (modifyFile p filePath s rootDir st))) = writesOf (trace st)
   \<or> (\<exists>currentContent fileContext answer st3.
         readFileSync p filePath (world st) = Inr currentContent \<and>
         getFileTreeString p rootDir (world st) = Inr fileContext \<and>
         callOpenRouter p modifyFileSystemPrompt
           (modifyFileUserPrompt filePath s fileContext currentContent) (str ''gemini-2.5-pro'')
           (st\<lparr>trace := trace st @ [ReadFile filePath, FileTree rootDir]\<rparr>) = (Inr (JString answer), st3) \<and>
         writesOf (trace (snd (modifyFile p filePath s rootDir st)))
           = writesOf (trace st) @ [(filePath, cleanContent answer)])"
proof (cases "readFileSync p filePath (world st)")
  case (Inl e)
  then show ?thesis
    by (simp add: modifyFile_def callReadFileSync_def writesOf_append)
next
  case rd: (Inr currentContent)
  show ?thesis
  proof (cases "getFileTreeString p rootDir (world st)")
    case (Inl e)
    with rd show ?thesis
      by (simp add: modifyFile_def callReadFileSync_def callGetFileTreeString_def writesOf_append)
  next
    case (Inr fileContext)
    let ?st2 = "st\<lparr>trace := trace st @ [ReadFile filePath, FileTree rootDir]\<rparr>"
    obtain answer st3 where call: "callOpenRouter p modifyFileSystemPrompt
        (modifyFileUserPrompt filePath s fileContext currentContent) (str ''gemini-2.5-pro'') ?st2 = (answer, st3)"
      by (cases "callOpenRouter p modifyFileSystemPrompt
        (modifyFileUserPrompt filePath s fileContext currentContent) (str ''gemini-2.5-pro'') ?st2")
    from callOpenRouter_writes [of p modifyFileSystemPrompt
        "modifyFileUserPrompt filePath s fileContext currentContent" "str ''gemini-2.5-pro''" ?st2] call
    have w3: "writesOf (trace st3) = writesOf (trace st)"
      by (simp add: writesOf_append)
    show ?thesis
    proof (cases answer)
      case (Inl e)
      with rd Inr call w3 show ?thesis
        by (simp add: modifyFile_def callReadFileSync_def callGetFileTreeString_def)
    next
      case ans: (Inr v)
      show ?thesis
      proof (cases "\<exists>c. v = JString c")
        case False
        with rd Inr call w3 ans show ?thesis
          by (cases v) (simp_all add: modifyFile_def callReadFileSync_def callGetFileTreeString_def)
      next
        case True
        then obtain c where v: "v = JString c" by blast
        have "writesOf (trace (snd (modifyFile p filePath s rootDir st)))
            = writesOf (trace st) @ [(filePath, cleanContent c)]"
          using rd Inr call w3 ans v
          by (simp add: modifyFile_def callReadFileSync_def callGetFileTreeString_def
              callWriteFileSync_def Let_def writesOf_append split: prod.split)
        with rd Inr call ans v show ?thesis
          by auto
      qed
    qed
  qed
qed

lemma createFile_writes_answer:
  assumes tree: "getFileTreeString p rootDir (world st) = Inr fileContext"
    and call: "callOpenRouter p createFileSystemPrompt (createFileUserPrompt filePath s fileContext)
        (str ''gemini-2.5-pro'') (st\<lparr>trace := trace st @ [FileTree rootDir]\<rparr>)
        = (Inr (JString answer), st2)"
    and dir: "existsSync p (dirname p filePath) (world st2)
        \<or> fst (mkdirSync p (dirname p filePath) (world st2)) = None"
  shows "writesOf (trace (snd (createFile p filePath s rootDir st)))
    = writesOf (trace st) @ [(filePath, cleanContent answer)]"
proof -
  from callOpenRouter_writes [of p createFileSystemPrompt "createFileUserPrompt filePath s fileContext"
      "str ''gemini-2.5-pro''" "st\<lparr>trace := trace st @ [FileTree rootDir]\<rparr>"] call
  have w2: "writesOf (trace st2) = writesOf (trace st)"
    by (simp add: writesOf_append)
  show ?thesis
  proof (cases "existsSync p (dirname p filePath) (world st2)")
    case True
    with tree call w2 show ?thesis
      by (simp add: createFile_def callGetFileTreeString_def callExistsSync_def
          callWriteFileSync_def Let_def writesOf_append split: prod.split)
  next
    case False
    with dir have "fst (mkdirSync p (dirname p filePath) (world st2)) = None"
      by simp
    then obtain w where "mkdirSync p (dirname p filePath) (world st2) = (None, w)"
      by (cases "mkdirSync p (dirname p filePath) (world st2)") simp
    with False tree call w2 show ?thesis
      by (simp add: createFile_def callGetFileTreeString_def callExistsSync_def callMkdirSync_def
          callWriteFileSync_def Let_def writesOf_append split: prod.split)
  qed
qed

lemma modifyFile_writes_answer:
  assumes rd: "readFileSync p filePath (world st) = Inr currentContent"
    and tree: "getFileTreeString p rootDir (world st) = Inr fileContext"
    and call: "callOpenRouter p modifyFileSystemPrompt
        (modifyFileUserPrompt filePath s fileContext currentContent) (str ''gemini-2.5-pro'')
        (st\<lparr>trace := trace st @ [ReadFile filePath, FileTree rootDir]\<rparr>)
        = (Inr (JString answer), st3)"
  shows "writesOf (trace (snd (modifyFile p filePath s rootDir st)))
    = writesOf (trace st) @ [(filePath, cleanContent answer)]"
proof -
  from callOpenRouter_writes [of p modifyFileSystemPrompt
      "modifyFileUserPrompt filePath s fileContext currentContent" "str ''gemini-2.5-pro''"
      "st\<lparr>trace := trace st @ [ReadFile filePath, FileTree rootDir]\<rparr>"] call
  have w3: "writesOf (trace st3) = writesOf (trace st)"
    by (simp add: writesOf_append)
  with rd tree call show ?thesis
    by (simp add: modifyFile_def callReadFileSync_def callGetFileTreeString_def
        callWriteFileSync_def Let_def writesOf_append split: prod.split)
qed

subsection \<open>C10: what is written is the trimmed answer, without its fences when it had them\<close>

text \<open>
  Claim C10, as the code has it. When its LLM call returns a string, \<open>modifyFile\<close> calls
  \<open>writeFileSync\<close> once, for \<open>filePath\<close>, with \<open>cleanContent\<close> of that string, and so does
  \<open>createFile\<close> when the directory of the file exists or can be made; neither writes
  anything else, and neither writes at all when the call fails.
  \<open>cleanContent\<close> always trims the answer first. When the trimmed answer does not start
  with three grave accents it is written as it is, and then the file neither begins nor
  ends with white space; the fences are removed only when the trimmed answer starts with
  three grave accents. What is left after the fences are removed is not trimmed again
  (\<open>written_file_begins_with_whitespace\<close> below: a blank line after the opening fence
  stays the first line of the file).
\<close>

theorem cleanContent_written:
  "(\<not> startsWith (trim content) fence \<longrightarrow>
      cleanContent content = trim content \<and>
      \<not> beginsWithWhiteSpace (cleanContent content) \<and>
      \<not> endsWithWhiteSpace (cleanContent content))
   \<and> (startsWith (trim content) fence \<longrightarrow>
        cleanContent content = removeClosingFence (removeOpeningFence (trim content)))
   \<and> (cleanContent content \<noteq> trim content \<longrightarrow> startsWith (trim content) fence)
   \<and> (getFileTreeString p rootDir (world st) = Inr fileContext \<and>
      callOpenRouter p createFileSystemPrompt (createFileUserPrompt filePath s fileContext)
        (str ''gemini-2.5-pro'') (st\<lparr>trace := trace st @ [FileTree rootDir]\<rparr>)
        = (Inr (JString answer), st2) \<and>
      (existsSync p (dirname p filePath) (world st2)
        \<or> fst (mkdirSync p (dirname p filePath) (world st2)) = None) \<longrightarrow>
      writesOf (trace (snd (createFile p filePath s rootDir st)))
        = writesOf (trace st) @ [(filePath, cleanContent answer)])
   \<and> (readFileSync p filePath (world st) = Inr currentContent \<and>
      getFileTreeString p rootDir (world st) = Inr fileContext \<and>
      callOpenRouter p modifyFileSystemPrompt
        (modifyFileUserPrompt filePath s fileContext currentContent) (str ''gemini-2.5-pro'')
        (st\<lparr>trace := trace st @ [ReadFile filePath, FileTree rootDir]\<rparr>)
        = (Inr (JString answer), st3) \<longrightarrow>
      writesOf (trace (snd (modifyFile p filePath s rootDir st)))
        = writesOf (trace st) @ [(filePath, cleanContent answer)])
   \<and> (writesOf (trace (snd (createFile p filePath s rootDir st))) = writesOf (trace st)
      \<or> (\<exists>fileContext answer st2.
            getFileTreeString p rootDir (world st) = Inr fileContext \<and>
            callOpenRouter p createFileSystemPrompt (createFileUserPrompt filePath s fileContext)
              (str ''gemini-2.5-pro'') (st\<lparr>trace := trace st @ [FileTree rootDir]\<rparr>)
              = (Inr (JString answer), st2) \<and>
            writesOf (trace (snd (createFile p filePath s rootDir st)))
              = writesOf (trace st) @ [(filePath, cleanContent answer)]))
   \<and> (writesOf (trace (snd (modifyFile p filePath s rootDir st))) = writesOf (trace st)
      \<or> (\<exists>currentContent fileContext answer st3.
            readFileSync p filePath (world st) = Inr currentContent \<and>
            getFileTreeString p rootDir (world st) = Inr fileContext \<and>
            callOpenRouter p modifyFileSystemPrompt
              (modifyFileUserPrompt filePath s fileContext currentContent) (str ''gemini-2.5-pro'')
              (st\<lparr>trace := trace st @ [ReadFile filePath, FileTree rootDir]\<rparr>)
              = (Inr (JString answer), st3) \<and>
            writesOf (trace (snd (modifyFile p filePath s rootDir st)))
              = writesOf (trace st) @ [(filePath, cleanContent answer)]))"
proof -
  have plain: "\<not> startsWith (trim content) fence \<longrightarrow>
      cleanContent content = trim content \<and>
      \<not> beginsWithWhiteSpace (cleanContent content) \<and>
      \<not> endsWithWhiteSpace (cleanContent content)"
    by (simp add: cleanContent_def trim_no_leading trim_no_trailing)
  have fenced: "startsWith (trim content) fence \<longrightarrow>
        cleanContent content = removeClosingFence (removeOpeningFence (trim content))"
    by (simp add: cleanContent_def)
  have only: "cleanContent content \<noteq> trim content \<longrightarrow> startsWith (trim content) fence"
    by (simp add: cleanContent_def Let_def)
  have created: "getFileTreeString p rootDir (world st) = Inr fileContext \<and>
      callOpenRouter p createFileSystemPrompt (createFileUserPrompt filePath s fileContext)
        (str ''gemini-2.5-pro'') (st\<lparr>trace := trace st @ [FileTree rootDir]\<rparr>)
        = (Inr (JString answer), st2) \<and>
      (existsSync p (dirname p filePath) (world st2)
        \<or> fst (mkdirSync p (dirname p filePath) (world st2)) = None) \<longrightarrow>
      writesOf (trace (snd (createFile p filePath s rootDir st)))
        = writesOf (trace st) @ [(filePath, cleanContent answer)]"
    using createFile_writes_answer [of p rootDir st fileContext filePath s answer st2]
    by (intro impI) (elim conjE, assumption)
  have modified: "readFileSync p filePath (world st) = Inr currentContent \<and>
      getFileTreeString p rootDir (world st) = Inr fileContext \<and>
      callOpenRouter p modifyFileSystemPrompt
        (modifyFileUserPrompt filePath s fileContext currentContent) (str ''gemini-2.5-pro'')
        (st\<lparr>trace := trace st @ [ReadFile filePath, FileTree rootDir]\<rparr>)
        = (Inr (JString answer), st3) \<longrightarrow>
      writesOf (trace (snd (modifyFile p filePath s rootDir st)))
        = writesOf (trace st) @ [(filePath, cleanContent answer)]"
    using modifyFile_writes_answer [of p filePath st currentContent rootDir fileContext s answer st3]
    by (intro impI) (elim conjE, assumption)
  show ?thesis
    by (intro conjI) (fact plain fenced only created modified createFile_writes modifyFile_writes)+
qed

theorem cleanContent_written_witness:
  "\<not> startsWith (trim (str ''  hello '' @ [10])) fence
   \<and> cleanContent (str ''  hello '' @ [10]) = str ''hello''
   \<and> \<not> beginsWithWhiteSpace (cleanContent (str ''  hello '' @ [10]))
   \<and> startsWith (trim ([32] @ fence @ str ''ts'' @ [10, 120, 10] @ fence @ [10])) fence
   \<and> cleanContent ([32] @ fence @ str ''ts'' @ [10, 120, 10] @ fence @ [10]) = [120]
   \<and> writesOf (trace (snd (createFile (memoryPlatform 1 (textResponse (str ''  hello '' @ [10])))
         (str ''/r/a.ts'') (planStep 1 ''write a'' (Some [str ''a.ts''])) (str ''/r'') emptyMemory)))
       = [(str ''/r/a.ts'', str ''hello'')]
   \<and> writesOf (trace (snd (modifyFile (memoryPlatform 1 (textResponse (str ''  hello '' @ [10])))
         (str ''/r/a.ts'') (planStep 1 ''write a'' (Some [str ''a.ts''])) (str ''/r'')
         \<lparr>world = \<lparr>stored = [(str ''/r/a.ts'', str ''old'')], calls = 0\<rparr>, trace = []\<rparr>)))
       = [(str ''/r/a.ts'', str ''hello'')]"
proof -
  let ?plain = "str ''  hello '' @ [10]"
  let ?fenced = "[32] @ fence @ str ''ts'' @ [10, 120, 10] @ fence @ [10]"
  let ?P = "memoryPlatform 1 (textResponse ?plain)"
  let ?s = "planStep 1 ''write a'' (Some [str ''a.ts''])"
  let ?old = "\<lparr>world = \<lparr>stored = [(str ''/r/a.ts'', str ''old'')], calls = 0\<rparr>, trace = []\<rparr>"
  let ?url = "generateContentUrl (str ''gemini-2.5-pro'') (str ''key'')"
  let ?cbody = "requestBodyJSON (createFileSystemPrompt @ [10, 10] @
      createFileUserPrompt (str ''/r/a.ts'') ?s (str ''tree''))"
  let ?mbody = "requestBodyJSON (modifyFileSystemPrompt @ [10, 10] @
      modifyFileUserPrompt (str ''/r/a.ts'') ?s (str ''tree'') (str ''old''))"
  let ?st2 = "\<lparr>world = \<lparr>stored = [], calls = 1\<rparr>,
      trace = [FileTree (str ''/r''), Fetch ?url ?cbody]\<rparr>"
  let ?st3 = "\<lparr>world = \<lparr>stored = [(str ''/r/a.ts'', str ''old'')], calls = 1\<rparr>,
      trace = [ReadFile (str ''/r/a.ts''), FileTree (str ''/r''), Fetch ?url ?mbody]\<rparr>"
  have key: "str ''key'' \<noteq> []"
    by (simp add: str_def)
  have nofence: "\<not> startsWith (trim ?plain) fence"
    by (simp add: trim_def fence_def isWhiteSpace_def str_def)
  have cleaned: "cleanContent ?plain = str ''hello''"
    by (simp add: cleanContent_def trim_def fence_def isWhiteSpace_def str_def)
  note plain = cleanContent_written [where content = ?plain, THEN conjunct1, THEN mp, OF nofence]
  from plain have clean: "\<not> beginsWithWhiteSpace (cleanContent ?plain)"
    by (elim conjE)
  have isfence: "startsWith (trim ?fenced) fence"
    by (simp add: trim_def fence_def isWhiteSpace_def str_def)
  note cleanContent_written [where content = ?fenced, THEN conjunct2, THEN conjunct1, THEN mp,
      OF isfence]
  then have stripped: "cleanContent ?fenced = [120]"
    by (simp add: trim_def fence_def isWhiteSpace_def isWordChar_def str_def
        removeOpeningFence_def removeClosingFence_def)
  have ctree: "getFileTreeString ?P (str ''/r'') (world emptyMemory) = Inr (str ''tree'')"
    by (simp add: memory_defs)
  have ccall: "callOpenRouter ?P createFileSystemPrompt
      (createFileUserPrompt (str ''/r/a.ts'') ?s (str ''tree'')) (str ''gemini-2.5-pro'')
      (emptyMemory\<lparr>trace := trace emptyMemory @ [FileTree (str ''/r'')]\<rparr>)
      = (Inr (JString ?plain), ?st2)"
    by (simp add: executor_defs memory_defs key Let_def)
  have cdir: "existsSync ?P (dirname ?P (str ''/r/a.ts'')) (world ?st2)
      \<or> fst (mkdirSync ?P (dirname ?P (str ''/r/a.ts'')) (world ?st2)) = None"
    by (simp add: memory_defs)
  note cleanContent_written [where p = ?P and rootDir = "str ''/r''" and st = emptyMemory
      and fileContext = "str ''tree''" and filePath = "str ''/r/a.ts''" and s = ?s
      and answer = ?plain and ?st2.0 = ?st2,
      THEN conjunct2, THEN conjunct2, THEN conjunct2, THEN conjunct1, THEN mp,
      OF conjI [OF ctree conjI [OF ccall cdir]]]
  then have created: "writesOf (trace (snd (createFile ?P (str ''/r/a.ts'') ?s (str ''/r'') emptyMemory)))
       = [(str ''/r/a.ts'', str ''hello'')]"
    by (simp add: cleaned emptyMemory_def)
  have mread: "readFileSync ?P (str ''/r/a.ts'') (world ?old) = Inr (str ''old'')"
    by (simp add: memory_defs)
  have mtree: "getFileTreeString ?P (str ''/r'') (world ?old) = Inr (str ''tree'')"
    by (simp add: memory_defs)
  have mcall: "callOpenRouter ?P modifyFileSystemPrompt
      (modifyFileUserPrompt (str ''/r/a.ts'') ?s (str ''tree'') (str ''old'')) (str ''gemini-2.5-pro'')
      (?old\<lparr>trace := trace ?old @ [ReadFile (str ''/r/a.ts''), FileTree (str ''/r'')]\<rparr>)
      = (Inr (JString ?plain), ?st3)"
    by (simp add: executor_defs memory_defs key Let_def)
  note cleanContent_written [where p = ?P and rootDir = "str ''/r''" and st = ?old
      and fileContext = "str ''tree''" and filePath = "str ''/r/a.ts''" and s = ?s
      and answer = ?plain and ?st3.0 = ?st3 and currentContent = "str ''old''",
      THEN conjunct2, THEN conjunct2, THEN conjunct2, THEN conjunct2, THEN conjunct1, THEN mp,
      OF conjI [OF mread conjI [OF mtree mcall]]]
  then have modified: "writesOf (trace (snd (modifyFile ?P (str ''/r/a.ts'') ?s (str ''/r'') ?old)))
       = [(str ''/r/a.ts'', str ''hello'')]"
    by (simp add: cleaned)
  show ?thesis
    by (intro conjI) (fact nofence cleaned clean isfence stripped created modified)+
qed

theorem written_file_begins_with_whitespace:
  "stored (world (snd (executeStep
      (memoryPlatform 1 (textResponse (fence @ str ''ts'' @ [10, 10, 120, 10] @ fence)))
      (planStep 1 ''write a'' (Some [str ''a.ts''])) (str ''/r'') emptyMemory)))
     = [(str ''/r/a.ts'', [10, 120])]
   \<and> beginsWithWhiteSpace [10, 120]"
proof -
  have "cleanContent (fence @ str ''ts'' @ [10, 10, 120, 10] @ fence) = [10, 120]"
    by (simp add: cleanContent_def trim_def fence_def isWhiteSpace_def isWordChar_def str_def
        removeOpeningFence_def removeClosingFence_def)
  then have "stored (world (snd (executeStep
      (memoryPlatform 1 (textResponse (fence @ str ''ts'' @ [10, 10, 120, 10] @ fence)))
      (planStep 1 ''write a'' (Some [str ''a.ts''])) (str ''/r'') emptyMemory)))
     = [(str ''/r/a.ts'', [10, 120])]"
    by (simp add: executor_defs memory_defs Let_def str_def)
  moreover have "beginsWithWhiteSpace [10, 120]"
    by (simp add: beginsWithWhiteSpace_def isWhiteSpace_def)
  ultimately show ?thesis ..
qed

section \<open>Properties of the LLM client\<close>

subsection \<open>C9: how callOpenRouter fails\<close>

text \<open>
  Claim C9, as the code has it.
  \<^item> Without a credential (the variable unset or empty) \<open>callOpenRouter\<close> fails with an
    \<open>Error\<close> of message \<open>GEMINI_API_KEY environment variable is not set\<close> and returns the
    state it was given: no network call is attempted.
  \<^item> With a credential it makes exactly one \<open>fetch\<close> call, to the model's
    \<open>generateContent\<close> URL with the combined prompt in the body. When the call is rejected
    with an \<open>Error\<close> of message \<open>m\<close>, it fails with an \<open>Error\<close> of message
    \<open>Failed to call Gemini API: m\<close>.
  \<^item> When the response is not a success and its body can be read as text, it fails with
    an \<open>Error\<close> of message
    \<open>Failed to call Gemini API: Gemini API request failed (STATUS): BODY\<close>: the status and
    the body of the response are in the message.
  \<^item> When the response is a success whose body is JSON other than \<open>null\<close>, and the text
    of the first part of the first candidate is absent or falsy, it fails with an
    \<open>Error\<close> of the fixed message \<open>Failed to call Gemini API: No content in Gemini response\<close>,
    the same for every status and body
    (\<open>callOpenRouter_no_content_message\<close> below: status 200 and body \<open>{}\<close> are not in it).
\<close>

theorem callOpenRouter_failures:
  "(env_GEMINI_API_KEY p (world st) = None \<or> env_GEMINI_API_KEY p (world st) = Some [] \<longrightarrow>
      callOpenRouter p systemPrompt userPrompt model st =
        (Inl (ErrorObject (str ''GEMINI_API_KEY environment variable is not set'')), st))
   \<and> (env_GEMINI_API_KEY p (world st) = Some apiKey \<and> apiKey \<noteq> [] \<and>
      fetch p (generateContentUrl model apiKey)
        (requestBodyJSON (systemPrompt @ [10, 10] @ userPrompt)) (world st) = (fetched, w) \<longrightarrow>
        snd (callOpenRouter p systemPrompt userPrompt model st) =
          \<lparr>world = w,
           trace = trace st @ [Fetch (generateContentUrl model apiKey)
                                 (requestBodyJSON (systemPrompt @ [10, 10] @ userPrompt))]\<rparr>
        \<and> (\<forall>m. fetched = Inl (ErrorObject m) \<longrightarrow>
              fst (callOpenRouter p systemPrompt userPrompt model st) =
                Inl (ErrorObject (str ''Failed to call Gemini API: '' @ m)))
        \<and> (\<forall>r body. fetched = Inr r \<and> \<not> ok r \<and> responseText r = Inr body \<longrightarrow>
              fst (callOpenRouter p systemPrompt userPrompt model st) =
                Inl (ErrorObject (str ''Failed to call Gemini API: Gemini API request failed (''
                       @ showNat (status r) @ str ''): '' @ body)))
        \<and> (\<forall>r data content. fetched = Inr r \<and> ok r \<and> responseJson r = Inr data \<and>
              candidateText data = Inr content \<and> falsy content \<longrightarrow>
              fst (callOpenRouter p systemPrompt userPrompt model st) =
                Inl (ErrorObject (str ''Failed to call Gemini API: No content in Gemini response''))))"
proof -
  have config: "env_GEMINI_API_KEY p (world st) = None \<or> env_GEMINI_API_KEY p (world st) = Some [] \<longrightarrow>
      callOpenRouter p systemPrompt userPrompt model st =
        (Inl (ErrorObject (str ''GEMINI_API_KEY environment variable is not set'')), st)"
    by (auto simp: callOpenRouter_def)
  have called: "env_GEMINI_API_KEY p (world st) = Some apiKey \<and> apiKey \<noteq> [] \<and>
      fetch p (generateContentUrl model apiKey)
        (requestBodyJSON (systemPrompt @ [10, 10] @ userPrompt)) (world st) = (fetched, w) \<longrightarrow>
        callOpenRouter p systemPrompt userPrompt model st =
          (rethrow (readResponse fetched),
           \<lparr>world = w,
            trace = trace st @ [Fetch (generateContentUrl model apiKey)
                                  (requestBodyJSON (systemPrompt @ [10, 10] @ userPrompt))]\<rparr>)"
    by (simp add: callOpenRouter_def callFetch_def Let_def)
  have transport: "\<And>m. rethrow (readResponse (Inl (ErrorObject m))) =
      Inl (ErrorObject (str ''Failed to call Gemini API: '' @ m))"
    by (simp add: rethrow_def readResponse_def)
  have protocol: "\<And>r body. \<not> ok r \<Longrightarrow> responseText r = Inr body \<Longrightarrow>
      rethrow (readResponse (Inr r)) =
        Inl (ErrorObject (str ''Failed to call Gemini API: Gemini API request failed (''
               @ showNat (status r) @ str ''): '' @ body))"
    by (simp add: rethrow_def readResponse_def str_def)
  have nocontent: "\<And>r data content. ok r \<Longrightarrow> responseJson r = Inr data \<Longrightarrow>
      candidateText data = Inr content \<Longrightarrow> falsy content \<Longrightarrow>
      rethrow (readResponse (Inr r)) =
        Inl (ErrorObject (str ''Failed to call Gemini API: No content in Gemini response''))"
    by (simp add: rethrow_def readResponse_def str_def)
  from config called transport protocol nocontent show ?thesis
    by auto
qed

theorem callOpenRouter_failures_witness:
  "callOpenRouter ((memoryPlatform 1 overloadedResponse)\<lparr>env_GEMINI_API_KEY := (\<lambda>w. None)\<rparr>)
      (str ''s'') (str ''u'') (str ''m'') emptyMemory
     = (Inl (ErrorObject (str ''GEMINI_API_KEY environment variable is not set'')), emptyMemory)
   \<and> fst (callOpenRouter (memoryPlatform 0 overloadedResponse) (str ''s'') (str ''u'') (str ''m'') emptyMemory)
     = Inl (ErrorObject (str ''Failed to call Gemini API: fetch failed''))
   \<and> fst (callOpenRouter (memoryPlatform 1 overloadedResponse) (str ''s'') (str ''u'') (str ''m'') emptyMemory)
     = Inl (ErrorObject (str ''Failed to call Gemini API: Gemini API request failed (503): overloaded''))
   \<and> fst (callOpenRouter (memoryPlatform 1 emptyObjectResponse) (str ''s'') (str ''u'') (str ''m'') emptyMemory)
     = Inl (ErrorObject (str ''Failed to call Gemini API: No content in Gemini response''))"
proof -
  let ?url = "generateContentUrl (str ''m'') (str ''key'')"
  let ?body = "requestBodyJSON (str ''s'' @ [10, 10] @ str ''u'')"
  let ?w = "\<lparr>stored = [], calls = 1\<rparr>"
  have key: "str ''key'' \<noteq> []"
    by (simp add: str_def)
  have nokey: "env_GEMINI_API_KEY ((memoryPlatform 1 overloadedResponse)\<lparr>env_GEMINI_API_KEY := (\<lambda>w. None)\<rparr>)
      (world emptyMemory) = None"
    by simp
  from callOpenRouter_failures [where p = "(memoryPlatform 1 overloadedResponse)\<lparr>env_GEMINI_API_KEY := (\<lambda>w. None)\<rparr>"
      and st = emptyMemory and systemPrompt = "str ''s''" and userPrompt = "str ''u''" and model = "str ''m''"] nokey
  have config: "callOpenRouter ((memoryPlatform 1 overloadedResponse)\<lparr>env_GEMINI_API_KEY := (\<lambda>w. None)\<rparr>)
      (str ''s'') (str ''u'') (str ''m'') emptyMemory
     = (Inl (ErrorObject (str ''GEMINI_API_KEY environment variable is not set'')), emptyMemory)"
    by blast
  have rejected: "env_GEMINI_API_KEY (memoryPlatform 0 overloadedResponse) (world emptyMemory) = Some (str ''key'')
      \<and> str ''key'' \<noteq> []
      \<and> fetch (memoryPlatform 0 overloadedResponse) ?url ?body (world emptyMemory)
          = (Inl (ErrorObject (str ''fetch failed'')), ?w)"
    by (simp add: memory_defs key)
  from callOpenRouter_failures [where p = "memoryPlatform 0 overloadedResponse" and st = emptyMemory
      and apiKey = "str ''key''" and model = "str ''m''" and systemPrompt = "str ''s''"
      and userPrompt = "str ''u''" and fetched = "Inl (ErrorObject (str ''fetch failed''))" and w = ?w] rejected
  have "fst (callOpenRouter (memoryPlatform 0 overloadedResponse) (str ''s'') (str ''u'') (str ''m'') emptyMemory)
     = Inl (ErrorObject (str ''Failed to call Gemini API: '' @ str ''fetch failed''))"
    by blast
  then have transport: "fst (callOpenRouter (memoryPlatform 0 overloadedResponse) (str ''s'') (str ''u'') (str ''m'') emptyMemory)
     = Inl (ErrorObject (str ''Failed to call Gemini API: fetch failed''))"
    by (simp add: str_def)
  have answered: "env_GEMINI_API_KEY (memoryPlatform 1 overloadedResponse) (world emptyMemory) = Some (str ''key'')
      \<and> str ''key'' \<noteq> []
      \<and> fetch (memoryPlatform 1 overloadedResponse) ?url ?body (world emptyMemory)
          = (Inr overloadedResponse, ?w)"
    by (simp add: memory_defs key)
  have failure: "\<not> ok overloadedResponse \<and> responseText overloadedResponse = Inr (str ''overloaded'')"
    by (simp add: overloadedResponse_def)
  from callOpenRouter_failures [where p = "memoryPlatform 1 overloadedResponse" and st = emptyMemory
      and apiKey = "str ''key''" and model = "str ''m''" and systemPrompt = "str ''s''"
      and userPrompt = "str ''u''" and fetched = "Inr overloadedResponse" and w = ?w] answered failure
  have "fst (callOpenRouter (memoryPlatform 1 overloadedResponse) (str ''s'') (str ''u'') (str ''m'') emptyMemory)
     = Inl (ErrorObject (str ''Failed to call Gemini API: Gemini API request failed (''
                       @ showNat (status overloadedResponse) @ str ''): '' @ str ''overloaded''))"
    by blast
  then have protocol: "fst (callOpenRouter (memoryPlatform 1 overloadedResponse) (str ''s'') (str ''u'') (str ''m'') emptyMemory)
     = Inl (ErrorObject (str ''Failed to call Gemini API: Gemini API request failed (503): overloaded''))"
    by (simp add: overloadedResponse_def showNat.simps str_def)
  have answered': "env_GEMINI_API_KEY (memoryPlatform 1 emptyObjectResponse) (world emptyMemory) = Some (str ''key'')
      \<and> str ''key'' \<noteq> []
      \<and> fetch (memoryPlatform 1 emptyObjectResponse) ?url ?body (world emptyMemory)
          = (Inr emptyObjectResponse, ?w)"
    by (simp add: memory_defs key)
  have absent: "ok emptyObjectResponse \<and> responseJson emptyObjectResponse = Inr (JObject [])
      \<and> candidateText (JObject []) = Inr None \<and> falsy None"
    by (simp add: emptyObjectResponse_def candidateText_def)
  from callOpenRouter_failures [where p = "memoryPlatform 1 emptyObjectResponse" and st = emptyMemory
      and apiKey = "str ''key''" and model = "str ''m''" and systemPrompt = "str ''s''"
      and userPrompt = "str ''u''" and fetched = "Inr emptyObjectResponse" and w = ?w] answered' absent
  have nocontent: "fst (callOpenRouter (memoryPlatform 1 emptyObjectResponse) (str ''s'') (str ''u'') (str ''m'') emptyMemory)
     = Inl (ErrorObject (str ''Failed to call Gemini API: No content in Gemini response''))"
    by blast
  show ?thesis
    by (intro conjI) (fact config transport protocol nocontent)+
qed

theorem callOpenRouter_no_content_message:
  "status emptyObjectResponse = 200 \<and> responseText emptyObjectResponse = Inr (str ''{}'')
   \<and> fst (callOpenRouter (memoryPlatform 1 emptyObjectResponse) (str ''s'') (str ''u'') (str ''m'') emptyMemory)
     = Inl (ErrorObject (str ''Failed to call Gemini API: No content in Gemini response''))
   \<and> \<not> includesStr (str ''Failed to call Gemini API: No content in Gemini response'') (showNat 200)
   \<and> \<not> includesStr (str ''Failed to call Gemini API: No content in Gemini response'') (str ''{}'')"
proof -
  have key: "str ''key'' \<noteq> []"
    by (simp add: str_def)
  have response: "status emptyObjectResponse = 200 \<and> responseText emptyObjectResponse = Inr (str ''{}'')"
    by (simp add: emptyObjectResponse_def)
  have run: "fst (callOpenRouter (memoryPlatform 1 emptyObjectResponse) (str ''s'') (str ''u'') (str ''m'') emptyMemory)
     = Inl (ErrorObject (str ''Failed to call Gemini API: No content in Gemini response''))"
    by (simp add: executor_defs memory_defs emptyObjectResponse_def key Let_def)
       (simp add: str_def)
  have nostatus: "\<not> includesStr (str ''Failed to call Gemini API: No content in Gemini response'') (showNat 200)"
    by (simp add: showNat.simps str_def)
  have nobody: "\<not> includesStr (str ''Failed to call Gemini API: No content in Gemini response'') (str ''{}'')"
    by (simp add: str_def)
  from response run nostatus nobody show ?thesis
    by (intro conjI) simp_all
qed


section \<open>Properties of JSON.parse\<close>

lemmas parse_numeral =
  parse.simps(2) [of "pred_numeral k", folded numeral_eq_Suc]
  parse.simps(3) [of "pred_numeral k", folded numeral_eq_Suc]
  parse.simps(4) [of "pred_numeral k", folded numeral_eq_Suc]
  for k

lemma parseChars_shorter: "parseChars s = Some (t, r) \<Longrightarrow> length r < length s"
proof (induction "length s" arbitrary: s t r rule: less_induct)
  case less
  from less.prems obtain c cs where s: "s = c # cs"
    by (cases s) auto
  have ih: "\<And>s' t'. parseChars s' = Some (t', r) \<Longrightarrow> length s' \<le> length cs \<Longrightarrow> length r < length cs"
  proof -
    fix s' t' assume p: "parseChars s' = Some (t', r)" and le: "length s' \<le> length cs"
    then have "length s' < length s" by (simp add: s)
    from less.hyps [OF this p] le show "length r < length cs" by simp
  qed
  from less.prems have "(c = 34 \<and> r = cs) \<or> length r < length cs"
    unfolding s by (auto split: if_splits list.splits option.splits dest: ih)
  then show ?case
    by (auto simp: s)
qed

lemma parseNumber_shorter: "parseNumber s = Some (x, r) \<Longrightarrow> length r < length s"
proof -
  have drop: "\<And>xs. length (dropWhile isDigit xs) \<le> length xs"
    by (rule length_dropWhile_le)
  have whole: "\<And>a w b. parseInteger a = Some (w, b) \<Longrightarrow> length b < length a"
    using drop by (auto simp: parseInteger_def less_Suc_eq_le split: list.splits if_splits)
  have fraction: "\<And>a w b. parseFraction a = Some (w, b) \<Longrightarrow> length b \<le> length a"
    using drop by (auto simp: parseFraction_def Let_def le_Suc_eq split: list.splits if_splits)
  have exponent: "\<And>a w b. parseExponent a = Some (w, b) \<Longrightarrow> length b \<le> length a"
  proof -
    fix a w b assume a: "parseExponent a = Some (w, b)"
    show "length b \<le> length a"
    proof (cases a)
      case Nil
      with a show ?thesis by (simp add: parseExponent_def)
    next
      case (Cons e r)
      show ?thesis
      proof (cases "e = 101 \<or> e = 69")
        case False
        with a Cons show ?thesis by (auto simp: parseExponent_def)
      next
        case True
        define r' where "r' = (case r of [] \<Rightarrow> r
           | g # x \<Rightarrow> if g = 43 then x else if g = 45 then x else r)"
        have r': "length r' \<le> length r"
          by (auto simp: r'_def split: list.splits)
        from a Cons True have "b = dropWhile isDigit r'"
          by (auto simp: parseExponent_def Let_def r'_def split: list.splits if_splits)
        with drop [of r'] r' Cons show ?thesis by simp
      qed
    qed
  qed
  assume p: "parseNumber s = Some (x, r)"
  define s1 where "s1 = (case s of [] \<Rightarrow> s | c # r \<Rightarrow> if c = 45 then r else s)"
  have s1: "length s1 \<le> length s"
    by (auto simp: s1_def split: list.splits)
  from p obtain w s2 f s3 e where
    "parseInteger s1 = Some (w, s2)" "parseFraction s2 = Some (f, s3)" "parseExponent s3 = Some (e, r)"
    by (auto simp: parseNumber_def s1_def Let_def split: list.splits if_splits option.splits)
  from whole [OF this(1)] fraction [OF this(2)] exponent [OF this(3)] s1 show ?thesis
    by simp
qed


lemma skipWhiteSpace_le: "length (skipWhiteSpace s) \<le> length s"
  by (simp add: skipWhiteSpace_def length_dropWhile_le)

lemma skipWhiteSpace_Cons_le: "skipWhiteSpace s = d # rest \<Longrightarrow> length rest < length s"
  using skipWhiteSpace_le [of s] by simp

lemma startsWith_length: "startsWith s p \<Longrightarrow> length p \<le> length s"
  by (induction s p rule: startsWith.induct) auto

lemma parse_shorter: "parse m f s = Parsed v r \<Longrightarrow> length r < length s"
proof (induction f arbitrary: m s v r)
  case 0
  then show ?case by simp
next
  case (Suc n)
  note ws = skipWhiteSpace_Cons_le
  have le: "\<And>x k. k < length (skipWhiteSpace x) \<Longrightarrow> k < length x"
    using skipWhiteSpace_le less_le_trans by blast
  have ih: "\<And>m s v r. parse m n s = Parsed v r \<Longrightarrow> length r < length s"
    by (rule Suc.IH)
  show ?case
  proof (cases m)
    case Value
    from Suc.prems Value obtain c cs where s: "s = c # cs"
      by (cases s) auto
    have lit: "\<And>p. startsWith s p \<Longrightarrow> p \<noteq> [] \<Longrightarrow> length (drop (length p) s) < length s"
      using startsWith_length s by fastforce
    from lit [of "str ''true''"] lit [of "str ''false''"] lit [of "str ''null''"]
    have lits: "startsWith s (str ''true'') \<Longrightarrow> length (drop 4 s) < length s"
       "startsWith s (str ''false'') \<Longrightarrow> length (drop 5 s) < length s"
       "startsWith s (str ''null'') \<Longrightarrow> length (drop 4 s) < length s"
      by (simp_all add: str_def)
    from Suc.prems Value s show ?thesis
      using lits
      by (auto split: if_splits list.splits outcome.splits json.splits option.splits prod.splits
          dest!: ws parseChars_shorter parseNumber_shorter ih)
  next
    case Elements
    from Suc.prems Elements show ?thesis
      by (auto split: if_splits list.splits outcome.splits json.splits option.splits prod.splits
          dest!: ws ih le)
  next
    case Members
    from Suc.prems Members show ?thesis
      by (auto split: if_splits list.splits outcome.splits json.splits option.splits prod.splits
          dest!: ws parseChars_shorter ih le)
  qed
qed

lemma parse_fuel_bound:
  "parse m f s = OutOfFuel \<Longrightarrow> f \<le> 2 * length s + (if m = Value then 0 else 1)"
proof (induction f arbitrary: m s)
  case 0
  then show ?case by simp
next
  case (Suc n)
  note ws = skipWhiteSpace_Cons_le
  have le1: "\<And>x k. k \<le> Suc (2 * length (skipWhiteSpace x)) \<Longrightarrow> k \<le> Suc (2 * length x)"
    using skipWhiteSpace_le by (meson Suc_le_mono le_trans mult_le_mono2)
  have lt: "\<And>x k. k < length (skipWhiteSpace x) \<Longrightarrow> k < length x"
    using skipWhiteSpace_le less_le_trans by blast
  have le0: "\<And>x k. k \<le> 2 * length (skipWhiteSpace x) \<Longrightarrow> k \<le> 2 * length x"
    using skipWhiteSpace_le by (meson le_trans mult_le_mono2)
  have ih: "\<And>m s. parse m n s = OutOfFuel \<Longrightarrow> n \<le> 2 * length s + (if m = Value then 0 else 1)"
    by (rule Suc.IH)
  show ?case
  proof (cases m)
    case Value
    from Suc.prems Value obtain c cs where s: "s = c # cs"
      by (cases s) auto
    from Suc.prems Value s show ?thesis
      by (auto split: if_splits list.splits outcome.splits json.splits option.splits prod.splits
          dest!: ws ih)
  next
    case Elements
    from Suc.prems Elements show ?thesis
      by (auto split: if_splits list.splits outcome.splits json.splits option.splits prod.splits
          dest!: ws ih parse_shorter le1 le0 lt)
  next
    case Members
    from Suc.prems Members show ?thesis
      by (auto split: if_splits list.splits outcome.splits json.splits option.splits prod.splits
          dest!: ws ih parse_shorter parseChars_shorter le1 le0 lt)
  qed
qed


lemmas json_eval =
  parsePlanResponse_def JSON_parse_def parse_numeral skipWhiteSpace_def isJSONWhiteSpace_def
  upToLastBrace_def objectOf_def defineMember_def isArrayIndex_def isDigit_def isArray_def
  parseNumber_def parseInteger_def parseFraction_def parseExponent_def natOfDigits_def
  simpleEscape_def isHexDigit_def hexValue_def Let_def

lemma upToLastBrace_None: "upToLastBrace s = None \<longleftrightarrow> 125 \<notin> set s"
proof -
  have d: "dropWhile (\<lambda>c. c \<noteq> 125) (rev s) = [] \<longleftrightarrow> 125 \<notin> set s"
    by (auto simp: dropWhile_eq_Nil_conv)
  show ?thesis
  proof (cases "dropWhile (\<lambda>c. c \<noteq> 125) (rev s)")
    case Nil
    have "upToLastBrace s = None"
      by (simp only: upToLastBrace_def Nil list.case)
    moreover have "125 \<notin> set s"
      using d Nil by blast
    ultimately show ?thesis
      by simp
  next
    case (Cons c cs)
    have "upToLastBrace s = Some (rev (c # cs))"
      by (simp only: upToLastBrace_def Cons list.case)
    moreover have "125 \<in> set s"
      using d Cons by auto
    ultimately show ?thesis
      by simp
  qed
qed

lemma upToLastBrace_Some:
  "upToLastBrace s = Some t \<longleftrightarrow> (\<exists>body post. s = t @ post \<and> t = body @ [125] \<and> 125 \<notin> set post)"
proof
  assume "upToLastBrace s = Some t"
  then obtain c cs where d: "dropWhile (\<lambda>c. c \<noteq> 125) (rev s) = c # cs" and t: "t = rev (c # cs)"
    by (auto simp: upToLastBrace_def split: list.splits)
  from d have c: "c = 125"
    using hd_dropWhile [of "\<lambda>c. c \<noteq> 125" "rev s"] by auto
  have "rev s = takeWhile (\<lambda>c. c \<noteq> 125) (rev s) @ c # cs"
    using d takeWhile_dropWhile_id [of "\<lambda>c. c \<noteq> 125" "rev s"] by simp
  then have "s = rev (c # cs) @ rev (takeWhile (\<lambda>c. c \<noteq> 125) (rev s))"
    by (metis rev_append rev_rev_ident)
  moreover have "125 \<notin> set (rev (takeWhile (\<lambda>c. c \<noteq> 125) (rev s)))"
    using set_takeWhileD [of 125 "\<lambda>c. c \<noteq> 125" "rev s"] by auto
  ultimately show "\<exists>body post. s = t @ post \<and> t = body @ [125] \<and> 125 \<notin> set post"
    using t c by auto
next
  assume "\<exists>body post. s = t @ post \<and> t = body @ [125] \<and> 125 \<notin> set post"
  then obtain body post where s: "s = body @ [125] @ post" and t: "t = body @ [125]"
    and p: "125 \<notin> set post"
    by auto
  from p have "dropWhile (\<lambda>c. c \<noteq> 125) (rev post @ 125 # rev body) = 125 # rev body"
    by (subst dropWhile_append2) auto
  then show "upToLastBrace s = Some t"
    by (simp add: upToLastBrace_def s t)
qed

lemma matchBraces_None:
  "matchBraces s = None \<longleftrightarrow> \<not> (\<exists>pre body post. s = pre @ 123 # body @ 125 # post)"
proof (induction s)
  case Nil
  then show ?case by simp
next
  case (Cons c cs)
  show ?case
  proof (cases "c = 123 \<and> 125 \<in> set cs")
    case True
    then obtain t where t: "upToLastBrace cs = Some t"
      using upToLastBrace_None [of cs] by auto
    from True obtain body post where "cs = body @ 125 # post"
      by (auto simp: in_set_conv_decomp)
    then have "c # cs = [] @ 123 # body @ 125 # post"
      using True by simp
    then have "\<exists>pre body post. c # cs = pre @ 123 # body @ 125 # post"
      by blast
    then show ?thesis
      using True t by simp
  next
    case False
    then have m: "matchBraces (c # cs) = matchBraces cs"
      using upToLastBrace_None [of cs] by (auto split: option.splits)
    have "(\<exists>pre body post. c # cs = pre @ 123 # body @ 125 # post)
           \<longleftrightarrow> (\<exists>pre body post. cs = pre @ 123 # body @ 125 # post)"
    proof
      assume "\<exists>pre body post. c # cs = pre @ 123 # body @ 125 # post"
      then obtain pre body post where e: "c # cs = pre @ 123 # body @ 125 # post"
        by blast
      show "\<exists>pre body post. cs = pre @ 123 # body @ 125 # post"
      proof (cases pre)
        case Nil
        with e have "c = 123" "125 \<in> set cs"
          by auto
        with False show ?thesis
          by simp
      next
        case (Cons p ps)
        with e have "cs = ps @ 123 # body @ 125 # post"
          by simp
        then show ?thesis
          by blast
      qed
    next
      assume "\<exists>pre body post. cs = pre @ 123 # body @ 125 # post"
      then obtain pre body post where "cs = pre @ 123 # body @ 125 # post"
        by blast
      then have "c # cs = (c # pre) @ 123 # body @ 125 # post"
        by simp
      then show "\<exists>pre body post. c # cs = pre @ 123 # body @ 125 # post"
        by blast
    qed
    with m Cons.IH show ?thesis
      by simp
  qed
qed

lemma matchBraces_Some:
  "matchBraces s = Some t \<longleftrightarrow>
     (\<exists>pre body post. s = pre @ t @ post \<and> t = 123 # body @ [125]
                      \<and> 123 \<notin> set pre \<and> 125 \<notin> set post)"
proof (induction s)
  case Nil
  then show ?case by simp
next
  case (Cons c cs)
  show ?case
  proof (cases "c = 123")
    case True
    show ?thesis
    proof (cases "upToLastBrace cs")
      case None
      then have no: "125 \<notin> set cs"
        by (simp add: upToLastBrace_None)
      have "matchBraces cs = None"
        using no by (auto simp: matchBraces_None)
      then have l: "matchBraces (c # cs) = None"
        using True None by simp
      have "\<not> (\<exists>pre body post. c # cs = pre @ t @ post \<and> t = 123 # body @ [125]
                      \<and> 123 \<notin> set pre \<and> 125 \<notin> set post)"
      proof
        assume "\<exists>pre body post. c # cs = pre @ t @ post \<and> t = 123 # body @ [125]
                      \<and> 123 \<notin> set pre \<and> 125 \<notin> set post"
        then obtain pre body post where e: "c # cs = pre @ t @ post" and t: "t = 123 # body @ [125]"
          and p: "123 \<notin> set pre"
          by blast
        from e p True have "pre = []"
          by (cases pre) auto
        with e t have "cs = body @ [125] @ post"
          by simp
        with no show False
          by simp
      qed
      with l show ?thesis
        by simp
    next
      case (Some u)
      then have l: "matchBraces (c # cs) = Some (123 # u)"
        using True by simp
      from Some obtain body post where u: "cs = u @ post" "u = body @ [125]" "125 \<notin> set post"
        by (auto simp: upToLastBrace_Some)
      show ?thesis
      proof
        assume "matchBraces (c # cs) = Some t"
        with l have "t = 123 # u"
          by simp
        with u True have "c # cs = [] @ t @ post \<and> t = 123 # body @ [125] \<and> 123 \<notin> set [] \<and> 125 \<notin> set post"
          by simp
        then show "\<exists>pre body post. c # cs = pre @ t @ post \<and> t = 123 # body @ [125]
                      \<and> 123 \<notin> set pre \<and> 125 \<notin> set post"
          by blast
      next
        assume "\<exists>pre body post. c # cs = pre @ t @ post \<and> t = 123 # body @ [125]
                      \<and> 123 \<notin> set pre \<and> 125 \<notin> set post"
        then obtain pre body' post' where e: "c # cs = pre @ t @ post'" and t: "t = 123 # body' @ [125]"
          and p: "123 \<notin> set pre" and q: "125 \<notin> set post'"
          by blast
        from e p True have "pre = []"
          by (cases pre) auto
        with e t have "cs = (body' @ [125]) @ post'"
          by simp
        with q have "upToLastBrace cs = Some (body' @ [125])"
          by (subst upToLastBrace_Some) blast
        with Some have "u = body' @ [125]"
          by simp
        with l t show "matchBraces (c # cs) = Some t"
          by simp
      qed
    qed
  next
    case False
    then have m: "matchBraces (c # cs) = matchBraces cs"
      by simp
    have "(\<exists>pre body post. c # cs = pre @ t @ post \<and> t = 123 # body @ [125]
                      \<and> 123 \<notin> set pre \<and> 125 \<notin> set post)
       \<longleftrightarrow> (\<exists>pre body post. cs = pre @ t @ post \<and> t = 123 # body @ [125]
                      \<and> 123 \<notin> set pre \<and> 125 \<notin> set post)"
    proof
      assume "\<exists>pre body post. c # cs = pre @ t @ post \<and> t = 123 # body @ [125]
                      \<and> 123 \<notin> set pre \<and> 125 \<notin> set post"
      then obtain pre body post where e: "c # cs = pre @ t @ post" and t: "t = 123 # body @ [125]"
          and p: "123 \<notin> set pre" and q: "125 \<notin> set post"
        by blast
      from e t False obtain ps where ps: "pre = c # ps"
        by (cases pre) auto
      with e p have "cs = ps @ t @ post \<and> 123 \<notin> set ps"
        by simp
      with t q show "\<exists>pre body post. cs = pre @ t @ post \<and> t = 123 # body @ [125]
                      \<and> 123 \<notin> set pre \<and> 125 \<notin> set post"
        by blast
    next
      assume "\<exists>pre body post. cs = pre @ t @ post \<and> t = 123 # body @ [125]
                      \<and> 123 \<notin> set pre \<and> 125 \<notin> set post"
      then obtain pre body post where e: "cs = pre @ t @ post" and t: "t = 123 # body @ [125]"
          and p: "123 \<notin> set pre" and q: "125 \<notin> set post"
        by blast
      from e p False have "c # cs = (c # pre) @ t @ post \<and> 123 \<notin> set (c # pre)"
        by simp
      with t q show "\<exists>pre body post. c # cs = pre @ t @ post \<and> t = 123 # body @ [125]
                      \<and> 123 \<notin> set pre \<and> 125 \<notin> set post"
        by blast
    qed
    with m Cons.IH show ?thesis
      by simp
  qed
qed

lemma JSON_parse_completes:
  "parse Value (2 * length text + 2) (skipWhiteSpace text) \<noteq> OutOfFuel"
proof
  assume "parse Value (2 * length text + 2) (skipWhiteSpace text) = OutOfFuel"
  then have "2 * length text + 2 \<le> 2 * length (skipWhiteSpace text)"
    using parse_fuel_bound [of Value "2 * length text + 2" "skipWhiteSpace text"] by simp
  then show False
    using skipWhiteSpace_le [of "text"] by simp
qed


lemma parse_brace_object:
  "parse Value (Suc n) (123 # t) = Parsed v r \<Longrightarrow> \<exists>members. v = JObject members"
  by (auto simp: objectOf_def split: list.splits if_splits outcome.splits json.splits)

lemma JSON_parse_brace_object:
  assumes "JSON_parse (123 # t) = Some v"
  shows "\<exists>members. v = JObject members"
proof -
  have ws: "skipWhiteSpace (123 # t) = 123 # t"
    by (simp add: skipWhiteSpace_def isJSONWhiteSpace_def)
  have fuel: "2 * length (123 # t) + 2 = Suc (2 * length t + 3)"
    by simp
  from assms obtain r where "parse Value (Suc (2 * length t + 3)) (123 # t) = Parsed v r"
    unfolding JSON_parse_def ws fuel by (auto split: outcome.splits if_splits)
  then show ?thesis
    by (rule parse_brace_object)
qed

lemma parsePlanResponse_Some:
  "parsePlanResponse response = Some plan \<longleftrightarrow>
     (\<exists>jsonText. matchBraces response = Some jsonText \<and> JSON_parse jsonText = Some plan
        \<and> \<not> falsy (getNamed plan (str ''summary''))
        \<and> isArray (getNamed plan (str ''steps'')))"
proof -
  have a: "isArray x \<Longrightarrow> \<not> falsy x" for x
    by (auto simp: isArray_def split: option.splits json.splits)
  have n: "falsy (getNamed JNull k)" for k
    by simp
  show ?thesis
    using a n by (auto simp: parsePlanResponse_def split: option.splits)
qed

text \<open>
  Claim C2. For every response text, \<open>parsePlanResponse\<close> returns a plan exactly when the
  text has an opening brace with a closing brace after it, the span from the first
  opening brace to the last closing brace is a JSON text, and the value read from it has
  a truthy \<open>summary\<close> and an array as \<open>steps\<close>; the plan returned is that value, an
  object. It returns \<open>null\<close> when the text has no such span, when the span is not a JSON
  text, when \<open>summary\<close> is missing or falsy, and when \<open>steps\<close> is missing or not an array;
  being a total function, it never raises. The parser reaches its verdict on every span
  within the bound on nested calls that \<open>JSON_parse\<close> gives it. In particular the plan
  with summary \<open>x\<close> and no steps is recovered from prose and code fences around it, and
  \<open>not json at all\<close> and \<open>{"steps":[]}\<close> give \<open>null\<close>; so do a text whose first brace opens
  prose, a \<open>summary\<close> that is the empty string or a number that rounds to zero, \<open>steps\<close>
  that is an object, and a trailing comma. Of two members with one name the later one
  counts, and escapes in strings are decoded.
\<close>

theorem parsePlanResponse_span:
  \<open>(parsePlanResponse response = Some plan \<longleftrightarrow>
      (\<exists>pre body post.
          response = pre @ 123 # body @ 125 # post \<and> 123 \<notin> set pre \<and> 125 \<notin> set post
          \<and> JSON_parse (123 # body @ [125]) = Some plan
          \<and> \<not> falsy (getNamed plan (str ''summary''))
          \<and> isArray (getNamed plan (str ''steps''))))
   \<and> (parsePlanResponse response = Some plan \<longrightarrow> (\<exists>members. plan = JObject members))
   \<and> (\<not> (\<exists>pre body post. response = pre @ 123 # body @ 125 # post)
        \<longrightarrow> parsePlanResponse response = None)
   \<and> (response = pre @ 123 # body @ 125 # post \<and> 123 \<notin> set pre \<and> 125 \<notin> set post
        \<and> (JSON_parse (123 # body @ [125]) = None
            \<or> (\<exists>v. JSON_parse (123 # body @ [125]) = Some v
                    \<and> (falsy (getNamed v (str ''summary''))
                        \<or> \<not> isArray (getNamed v (str ''steps'')))))
        \<longrightarrow> parsePlanResponse response = None)
   \<and> parse Value (2 * length jsonText + 2) (skipWhiteSpace jsonText) \<noteq> OutOfFuel
   \<and> parsePlanResponse
         (str ''Here is the plan:\<newline>```json\<newline>{"summary":"x","steps":[]}\<newline>```'')
       = Some (JObject [(str ''summary'', JString (str ''x'')), (str ''steps'', JArray [])])
   \<and> parsePlanResponse (str ''not json at all'') = None
   \<and> parsePlanResponse (str ''{"steps":[]}'') = None
   \<and> parsePlanResponse (str ''Use {x}: {"summary":"x","steps":[]}'') = None
   \<and> parsePlanResponse (str ''{"summary":"","steps":[]}'') = None
   \<and> parsePlanResponse (str ''{"summary":1e-400,"steps":[]}'') = None
   \<and> parsePlanResponse (str ''{"summary":"x","steps":{}}'') = None
   \<and> parsePlanResponse (str ''{"summary":"x","steps":[1,]}'') = None
   \<and> parsePlanResponse
         (str ''{"summary":"","summary":"a'' @ [92] @ str ''n'' @ [92] @ str ''u0041","steps":''
          @ str ''[ {"step":1,"10":null,"2":-1.5e3} ] ,"steps":[[]]}'')
       = Some (JObject [(str ''summary'', JString [97, 10, 65]), (str ''steps'', JArray [JArray []])])\<close>
proof -
  have span: "matchBraces response = Some t \<longleftrightarrow>
      (\<exists>pre body post. response = pre @ 123 # body @ 125 # post \<and> t = 123 # body @ [125]
          \<and> 123 \<notin> set pre \<and> 125 \<notin> set post)" for t
    unfolding matchBraces_Some
  proof
    assume "\<exists>pre body post. response = pre @ t @ post \<and> t = 123 # body @ [125]
             \<and> 123 \<notin> set pre \<and> 125 \<notin> set post"
    then obtain pre body post where "response = pre @ t @ post" "t = 123 # body @ [125]"
        "123 \<notin> set pre" "125 \<notin> set post"
      by blast
    then have "response = pre @ 123 # body @ 125 # post \<and> t = 123 # body @ [125]
          \<and> 123 \<notin> set pre \<and> 125 \<notin> set post"
      by simp
    then show "\<exists>pre body post. response = pre @ 123 # body @ 125 # post \<and> t = 123 # body @ [125]
          \<and> 123 \<notin> set pre \<and> 125 \<notin> set post"
      by blast
  next
    assume "\<exists>pre body post. response = pre @ 123 # body @ 125 # post \<and> t = 123 # body @ [125]
          \<and> 123 \<notin> set pre \<and> 125 \<notin> set post"
    then obtain pre body post where "response = pre @ 123 # body @ 125 # post"
        "t = 123 # body @ [125]" "123 \<notin> set pre" "125 \<notin> set post"
      by blast
    then have "response = pre @ t @ post \<and> t = 123 # body @ [125]
             \<and> 123 \<notin> set pre \<and> 125 \<notin> set post"
      by simp
    then show "\<exists>pre body post. response = pre @ t @ post \<and> t = 123 # body @ [125]
             \<and> 123 \<notin> set pre \<and> 125 \<notin> set post"
      by blast
  qed
  have c1: "parsePlanResponse response = Some plan \<longleftrightarrow>
      (\<exists>pre body post.
          response = pre @ 123 # body @ 125 # post \<and> 123 \<notin> set pre \<and> 125 \<notin> set post
          \<and> JSON_parse (123 # body @ [125]) = Some plan
          \<and> \<not> falsy (getNamed plan (str ''summary''))
          \<and> isArray (getNamed plan (str ''steps'')))"
    unfolding parsePlanResponse_Some span by blast
  have c2: "parsePlanResponse response = Some plan \<longrightarrow> (\<exists>members. plan = JObject members)"
    unfolding c1 using JSON_parse_brace_object by blast
  have c3: "\<not> (\<exists>pre body post. response = pre @ 123 # body @ 125 # post)
        \<longrightarrow> parsePlanResponse response = None"
  proof
    assume "\<not> (\<exists>pre body post. response = pre @ 123 # body @ 125 # post)"
    then have "matchBraces response = None"
      using matchBraces_None [of response] by blast
    then show "parsePlanResponse response = None"
      by (simp add: parsePlanResponse_def)
  qed
  have c4: "response = pre @ 123 # body @ 125 # post \<and> 123 \<notin> set pre \<and> 125 \<notin> set post
        \<and> (JSON_parse (123 # body @ [125]) = None
            \<or> (\<exists>v. JSON_parse (123 # body @ [125]) = Some v
                    \<and> (falsy (getNamed v (str ''summary''))
                        \<or> \<not> isArray (getNamed v (str ''steps'')))))
        \<longrightarrow> parsePlanResponse response = None"
  proof
    assume h: "response = pre @ 123 # body @ 125 # post \<and> 123 \<notin> set pre \<and> 125 \<notin> set post
        \<and> (JSON_parse (123 # body @ [125]) = None
            \<or> (\<exists>v. JSON_parse (123 # body @ [125]) = Some v
                    \<and> (falsy (getNamed v (str ''summary''))
                        \<or> \<not> isArray (getNamed v (str ''steps'')))))"
    then have "matchBraces response = Some (123 # body @ [125])"
      unfolding span by auto
    with h show "parsePlanResponse response = None"
      by (auto simp: parsePlanResponse_def)
  qed
  have c5: "parse Value (2 * length jsonText + 2) (skipWhiteSpace jsonText) \<noteq> OutOfFuel"
    by (rule JSON_parse_completes)
  have e1: \<open>parsePlanResponse
         (str ''Here is the plan:\<newline>```json\<newline>{"summary":"x","steps":[]}\<newline>```'')
       = Some (JObject [(str ''summary'', JString (str ''x'')), (str ''steps'', JArray [])])\<close>
    by (simp add: json_eval str_def)
  have e2: \<open>parsePlanResponse (str ''not json at all'') = None\<close>
    by (simp add: json_eval str_def)
  have e3: \<open>parsePlanResponse (str ''{"steps":[]}'') = None\<close>
    by (simp add: json_eval str_def)
  have e4: \<open>parsePlanResponse (str ''Use {x}: {"summary":"x","steps":[]}'') = None\<close>
    by (simp add: json_eval str_def)
  have e5: \<open>parsePlanResponse (str ''{"summary":"","steps":[]}'') = None\<close>
    by (simp add: json_eval str_def)
  have e6: \<open>parsePlanResponse (str ''{"summary":1e-400,"steps":[]}'') = None\<close>
    by (simp add: json_eval str_def isZeroNumber_def)
  have e7: \<open>parsePlanResponse (str ''{"summary":"x","steps":{}}'') = None\<close>
    by (simp add: json_eval str_def)
  have e8: \<open>parsePlanResponse (str ''{"summary":"x","steps":[1,]}'') = None\<close>
    by (simp add: json_eval str_def)
  have e9: \<open>parsePlanResponse
         (str ''{"summary":"","summary":"a'' @ [92] @ str ''n'' @ [92] @ str ''u0041","steps":''
          @ str ''[ {"step":1,"10":null,"2":-1.5e3} ] ,"steps":[[]]}'')
       = Some (JObject [(str ''summary'', JString [97, 10, 65]), (str ''steps'', JArray [JArray []])])\<close>
    by (simp add: json_eval str_def)
  show ?thesis
    by (intro conjI) (fact c1 c2 c3 c4 c5 e1 e2 e3 e4 e5 e6 e7 e8 e9)+
qed

theorem parsePlanResponse_span_witness:
  \<open>parsePlanResponse (str ''Plan: {"summary":"x","steps":[]} done'')
     = Some (JObject [(str ''summary'', JString (str ''x'')), (str ''steps'', JArray [])])
   \<and> parsePlanResponse (str ''Plan: {"summary":"","steps":[]} done'') = None
   \<and> parsePlanResponse (str ''} no span {'') = None\<close>
proof -
  let ?plan = \<open>JObject [(str ''summary'', JString (str ''x'')), (str ''steps'', JArray [])]\<close>
  let ?body = \<open>str ''"summary":"x","steps":[]''\<close>
  let ?empty = \<open>str ''"summary":"","steps":[]''\<close>
  have r: \<open>str ''Plan: {"summary":"x","steps":[]} done'' = str ''Plan: '' @ 123 # ?body @ 125 # str '' done''\<close>
    by (simp add: str_def)
  have r': \<open>str ''Plan: {"summary":"","steps":[]} done'' = str ''Plan: '' @ 123 # ?empty @ 125 # str '' done''\<close>
    by (simp add: str_def)
  have p: \<open>JSON_parse (123 # ?body @ [125]) = Some ?plan\<close>
    by (simp add: json_eval str_def)
  have p': \<open>JSON_parse (123 # ?empty @ [125])
      = Some (JObject [(str ''summary'', JString []), (str ''steps'', JArray [])])\<close>
    by (simp add: json_eval str_def)
  have pre: \<open>123 \<notin> set (str ''Plan: '')\<close> \<open>125 \<notin> set (str '' done'')\<close>
    by (simp_all add: str_def)
  have t: \<open>\<not> falsy (getNamed ?plan (str ''summary''))\<close> \<open>isArray (getNamed ?plan (str ''steps''))\<close>
    by (simp_all add: str_def isArray_def)
  have f: \<open>falsy (getNamed (JObject [(str ''summary'', JString []), (str ''steps'', JArray [])])
      (str ''summary''))\<close>
    by (simp add: str_def)
  have none: \<open>\<not> (\<exists>pre body post. str ''} no span {'' = pre @ 123 # body @ 125 # post)\<close>
  proof
    assume \<open>\<exists>pre body post. str ''} no span {'' = pre @ 123 # body @ 125 # post\<close>
    then obtain pre body post where e: \<open>str ''} no span {'' = pre @ 123 # body @ 125 # post\<close>
      by blast
    have \<open>str ''} no span {'' = str ''} no span '' @ [123]\<close>
      by (simp add: str_def)
    with e have \<open>str ''} no span '' @ [123] = (pre @ 123 # body @ 125 # butlast post) @ [last post]
               \<or> str ''} no span '' @ [123] = (pre @ 123 # body) @ [125]\<close>
      by (cases post rule: rev_cases) auto
    then have \<open>str ''} no span '' = pre @ 123 # body @ 125 # butlast post\<close>
      by auto
    then have \<open>123 \<in> set (str ''} no span '')\<close>
      by (metis in_set_conv_decomp)
    then show False
      by (simp add: str_def)
  qed
  note inst = parsePlanResponse_span
    [where response = \<open>str ''Plan: {"summary":"x","steps":[]} done''\<close> and plan = ?plan]
  note inst' = parsePlanResponse_span
    [where response = \<open>str ''Plan: {"summary":"","steps":[]} done''\<close>
       and pre = \<open>str ''Plan: ''\<close> and body = ?empty and post = \<open>str '' done''\<close>]
  note inst'' = parsePlanResponse_span [where response = \<open>str ''} no span {''\<close>]
  have a: \<open>parsePlanResponse (str ''Plan: {"summary":"x","steps":[]} done'') = Some ?plan\<close>
    using inst [THEN conjunct1] r p pre t by blast
  have b: \<open>parsePlanResponse (str ''Plan: {"summary":"","steps":[]} done'') = None\<close>
    using inst' [THEN conjunct2, THEN conjunct2, THEN conjunct2, THEN conjunct1] r' p' pre f
    by blast
  have c: \<open>parsePlanResponse (str ''} no span {'') = None\<close>
    using inst'' [THEN conjunct2, THEN conjunct2, THEN conjunct1] none by blast
  show ?thesis
    by (intro conjI) (fact a b c)+
qed
end
